theory Spec2Isabelle
  imports Complex_Main "HOL-Library.Word" "HOL-Library.AList"
begin

section \<open>Data model of \<open>server/utils/tcp_handler.py\<close>\<close>

text \<open>
  Python \<open>bytes\<close> are lists of 8-bit words; a Python \<open>str\<close> is the list of its code
  points. \<open>py\<close> turns an ASCII literal of the source into such a string. A clock
  reading (\<open>time.time()\<close>) is a finite double, written as the real number it denotes and
  handed to the operations that read the clock.
\<close>

type_synonym byte = "8 word"
type_synonym bytes = "byte list"
type_synonym pystr = "nat list"

definition py :: "string \<Rightarrow> pystr" where
  "py s = map of_char s"

definition NL :: byte where
  "NL = 10"

text \<open>
  The dictionaries of the class keep insertion order (the code iterates over
  \<open>self.clients.items()\<close>), so they are association lists: \<open>map_of\<close> reads a key,
  \<open>AList.update\<close> is \<open>d[k] = v\<close> (an existing key keeps its place, a new one goes
  last) and \<open>AList.delete\<close> is \<open>del d[k]\<close>.
\<close>

type_synonym ('k, 'v) dict = "('k \<times> 'v) list"

definition contains :: "('k, 'v) dict \<Rightarrow> 'k \<Rightarrow> bool" where
  "contains d k = (map_of d k \<noteq> None)"

definition dict_get :: "('k, 'v) dict \<Rightarrow> 'k \<Rightarrow> 'v \<Rightarrow> 'v" where
  "dict_get d k dflt = (case map_of d k of None \<Rightarrow> dflt | Some v \<Rightarrow> v)"

text \<open>Sockets and handler callbacks are objects of the environment, known by a number.\<close>

type_synonym sock = nat
type_synonym handler = nat

text \<open>The dictionary a handler is called with; \<open>raw\<close> is there for the first strategy only.\<close>

datatype payload =
  Payload (p_device_type: pystr) (p_message_type: pystr) (p_content: pystr)
    (p_raw: "pystr option")

datatype level = DEBUG | INFO | WARNING | ERROR

text \<open>
  One constructor for each \<open>logger\<close> call of the source (its line in the comment), with
  the values its message is formatted from.
\<close>

datatype log_msg =
    HandlerInitialized \<comment> \<open>38\<close>
  | NewClient pystr \<comment> \<open>105\<close>
  | AutoDeviceRegistered pystr pystr \<comment> \<open>114\<close>
  | InvalidFormat pystr \<comment> \<open>225\<close>
  | DeviceRegistered pystr pystr \<comment> \<open>241\<close>
  | MessageProcessingError \<comment> \<open>247\<close>
  | MessageReceived pystr pystr pystr nat \<comment> \<open>260, 273, 296, 308: strategy 1 to 4\<close>
  | NoHandler pystr pystr pystr \<comment> \<open>320\<close>
  | RegisteredHandlers "(pystr \<times> pystr) list" \<comment> \<open>330\<close>
  | NoRegisteredHandlers \<comment> \<open>332\<close>
  | DispatchError \<comment> \<open>335\<close>
  | NoConnection pystr \<comment> \<open>345\<close>
  | ConnectedClients "(pystr \<times> pystr option \<times> pystr \<times> nat) list" \<comment> \<open>356\<close>
  | NoClients \<comment> \<open>358\<close>
  | MappedRawId pystr \<comment> \<open>365\<close>
  | SendSuccess pystr pystr \<comment> \<open>386\<close>
  | SendError pystr \<comment> \<open>390\<close>
  | HandlerRegistered pystr pystr \<comment> \<open>401\<close>
  | DeviceDisconnected pystr \<comment> \<open>420\<close>
  | ClientCloseError \<comment> \<open>423\<close>
  | InactiveClientRemoved pystr \<comment> \<open>464\<close>

text \<open>What the handler does to the outside, in order: log calls, callbacks, socket calls.\<close>

datatype event =
    Log level log_msg
  | Invoke handler payload
  | SockClose sock
  | SockSendAll sock bytes

record client_info =
  socket :: sock
  address :: "pystr \<times> nat"
  device_id :: "pystr option"
  last_activity :: real

record tcp_handler =
  clients :: "(pystr, client_info) dict"
  message_buffers :: "(pystr, bytes) dict"
  device_handlers :: "(pystr, (pystr, handler) dict) dict"
  auto_device_mapping :: "(pystr, pystr) dict"
  events :: "event list"

text \<open>
  The environment answers each call that can raise, knowing everything that happened
  before it: \<open>socket.close()\<close>, \<open>socket.sendall(data)\<close> and a handler callback;
  \<open>debug_enabled\<close> is \<open>logger.isEnabledFor(logging.DEBUG)\<close>.
\<close>

record env =
  close_raises :: "event list \<Rightarrow> sock \<Rightarrow> bool"
  sendall_raises :: "event list \<Rightarrow> sock \<Rightarrow> bytes \<Rightarrow> bool"
  handler_raises :: "event list \<Rightarrow> handler \<Rightarrow> payload \<Rightarrow> bool"
  debug_enabled :: bool

definition logger :: "level \<Rightarrow> log_msg \<Rightarrow> tcp_handler \<Rightarrow> tcp_handler" where
  "logger lv msg s = s\<lparr>events := events s @ [Log lv msg]\<rparr>"

definition DEVICE_ID_MAPPING :: "(pystr, pystr) dict" where
  "DEVICE_ID_MAPPING =
     [(py ''S'', py ''sort_controller''),
      (py ''H'', py ''env_controller''),
      (py ''G'', py ''access_controller'')]"

text \<open>\<open>__init__\<close> (lines 20-38), with the \<open>AUTO_DEVICE_MAPPING\<close> table of the configuration.\<close>

definition init_handler :: "(pystr, pystr) dict \<Rightarrow> tcp_handler" where
  "init_handler mapping =
     \<lparr>clients = [], message_buffers = [], device_handlers = [],
      auto_device_mapping = mapping, events = [Log INFO HandlerInitialized]\<rparr>"

subsection \<open>Text: \<open>decode('utf-8')\<close>, \<open>encode('utf-8')\<close>, \<open>str(port)\<close>, \<open>strip()\<close>\<close>

definition is_cont :: "byte \<Rightarrow> bool" where
  "is_cont b = (0x80 \<le> b \<and> b \<le> 0xBF)"

text \<open>
  The strict decoder: \<open>None\<close> is \<open>UnicodeDecodeError\<close> (a byte that starts no
  sequence, a sequence cut short, an overlong form, a surrogate, a code point past
  \<open>0x10FFFF\<close>).
\<close>

fun utf8_decode :: "bytes \<Rightarrow> pystr option" where
  "utf8_decode [] = Some []"
| "utf8_decode (b0 # bs) =
     (if b0 < 0x80 then map_option ((#) (unat b0)) (utf8_decode bs)
      else if 0xC2 \<le> b0 \<and> b0 \<le> 0xDF then
        (case bs of
           b1 # r \<Rightarrow>
             if is_cont b1
             then map_option ((#) (unat b0 mod 32 * 64 + unat b1 mod 64)) (utf8_decode r)
             else None
         | _ \<Rightarrow> None)
      else if 0xE0 \<le> b0 \<and> b0 \<le> 0xEF then
        (case bs of
           b1 # b2 # r \<Rightarrow>
             if (if b0 = 0xE0 then 0xA0 else 0x80) \<le> b1 \<and>
                b1 \<le> (if b0 = 0xED then 0x9F else 0xBF) \<and> is_cont b2
             then map_option
                    ((#) (unat b0 mod 16 * 4096 + unat b1 mod 64 * 64 + unat b2 mod 64))
                    (utf8_decode r)
             else None
         | _ \<Rightarrow> None)
      else if 0xF0 \<le> b0 \<and> b0 \<le> 0xF4 then
        (case bs of
           b1 # b2 # b3 # r \<Rightarrow>
             if (if b0 = 0xF0 then 0x90 else 0x80) \<le> b1 \<and>
                b1 \<le> (if b0 = 0xF4 then 0x8F else 0xBF) \<and> is_cont b2 \<and> is_cont b3
             then map_option
                    ((#) (unat b0 mod 8 * 262144 + unat b1 mod 64 * 4096 +
                          unat b2 mod 64 * 64 + unat b3 mod 64))
                    (utf8_decode r)
             else None
         | _ \<Rightarrow> None)
      else None)"

text \<open>The encoder: \<open>None\<close> is \<open>UnicodeEncodeError\<close>, raised for a lone surrogate.\<close>

definition encode_char :: "nat \<Rightarrow> bytes option" where
  "encode_char c =
     (if c < 0x80 then Some [of_nat c]
      else if c < 0x800 then Some [of_nat (0xC0 + c div 64), of_nat (0x80 + c mod 64)]
      else if c < 0x10000 then
        (if 0xD800 \<le> c \<and> c \<le> 0xDFFF then None
         else Some [of_nat (0xE0 + c div 4096), of_nat (0x80 + c div 64 mod 64),
                    of_nat (0x80 + c mod 64)])
      else if c < 0x110000 then
        Some [of_nat (0xF0 + c div 262144), of_nat (0x80 + c div 4096 mod 64),
              of_nat (0x80 + c div 64 mod 64), of_nat (0x80 + c mod 64)]
      else None)"

fun utf8_encode :: "pystr \<Rightarrow> bytes option" where
  "utf8_encode [] = Some []"
| "utf8_encode (c # cs) =
     (case encode_char c of
        None \<Rightarrow> None
      | Some bs \<Rightarrow> map_option ((@) bs) (utf8_encode cs))"

text \<open>The decimal digits of a port number, as the f-string of the accept loop writes it.\<close>

function str_of_nat :: "nat \<Rightarrow> pystr" where
  "str_of_nat n = (if n < 10 then [48 + n] else str_of_nat (n div 10) @ [48 + n mod 10])"
  by pat_completeness auto
termination
  by (relation "measure id") auto

declare str_of_nat.simps [simp del]

text \<open>The characters \<open>str.strip()\<close> removes at both ends.\<close>

definition is_space :: "nat \<Rightarrow> bool" where
  "is_space c =
     ((0x09 \<le> c \<and> c \<le> 0x0D) \<or> (0x1C \<le> c \<and> c \<le> 0x20) \<or> c = 0x85 \<or> c = 0xA0 \<or>
      c = 0x1680 \<or> (0x2000 \<le> c \<and> c \<le> 0x200A) \<or> c = 0x2028 \<or> c = 0x2029 \<or>
      c = 0x202F \<or> c = 0x205F \<or> c = 0x3000)"

definition strip :: "pystr \<Rightarrow> pystr" where
  "strip t = rev (dropWhile is_space (rev (dropWhile is_space t)))"

definition endswith_newline :: "pystr \<Rightarrow> bool" where
  "endswith_newline command = (command \<noteq> [] \<and> last command = 10)"

subsection \<open>Doubles: \<open>current_time - last_activity > timeout\<close>\<close>

text \<open>
  The subtraction of two doubles is their exact difference rounded to the nearest double,
  ties to the even mantissa: 53 bits of mantissa, the unit in the last place never below
  \<open>2 ^ -1074\<close>. \<open>bit_length\<close> is the number of binary digits of a natural number,
  \<open>ilog2 x\<close> the exponent of the largest power of two that is at most \<open>x > 0\<close>.
\<close>

function bit_length :: "nat \<Rightarrow> nat" where
  "bit_length n = (if n = 0 then 0 else Suc (bit_length (n div 2)))"
  by pat_completeness auto
termination
  by (relation "measure id") auto

declare bit_length.simps [simp del]

definition pow2 :: "int \<Rightarrow> real" where
  "pow2 k = (if 0 \<le> k then 2 ^ nat k else 1 / 2 ^ nat (- k))"

definition ilog2 :: "real \<Rightarrow> int" where
  "ilog2 x =
     (if 1 \<le> x then int (bit_length (nat \<lfloor>x\<rfloor>)) - 1
      else - int (bit_length (nat (\<lceil>1 / x\<rceil> - 1))))"

definition round_half_even :: "real \<Rightarrow> int" where
  "round_half_even q =
     (let n = \<lfloor>q\<rfloor>; r = q - of_int n
      in if r < 1 / 2 then n else if 1 / 2 < r then n + 1 else if even n then n else n + 1)"

definition round_double :: "real \<Rightarrow> real" where
  "round_double x =
     (if x = 0 then 0
      else (let k = max (ilog2 \<bar>x\<bar> - 52) (- 1074)
            in of_int (round_half_even (x / pow2 k)) * pow2 k))"

text \<open>
  The test of the sweeper on two clock readings and the integer timeout. A rounded
  difference of magnitude \<open>2 ^ 1024\<close> or more is an infinity, which is above every
  integer when positive and below when negative; the comparison of a double with an
  integer is exact.
\<close>

definition idle_exceeds :: "real \<Rightarrow> real \<Rightarrow> int \<Rightarrow> bool" where
  "idle_exceeds current_time activity timeout =
     (let d = round_double (current_time - activity)
      in if 2 ^ 1024 \<le> d then True
         else if d \<le> - (2 ^ 1024) then False
         else of_int timeout < d)"

subsection \<open>\<open>_accept_connections\<close>: one accepted connection (lines 102-123)\<close>

definition accept_connection ::
  "tcp_handler \<Rightarrow> sock \<Rightarrow> pystr \<times> nat \<Rightarrow> real \<Rightarrow> tcp_handler" where
  "accept_connection s client_socket addr now =
     (let client_id = fst addr @ py '':'' @ str_of_nat (snd addr);
          s1 = logger INFO (NewClient client_id) s;
          ip_address = fst addr;
          (dev, s2) =
            (case map_of (auto_device_mapping s1) ip_address of
               None \<Rightarrow> (None, s1)
             | Some d \<Rightarrow> (Some d, logger INFO (AutoDeviceRegistered d client_id) s1))
      in s2\<lparr>clients :=
               AList.update client_id
                 \<lparr>socket = client_socket, address = addr, device_id = dev,
                  last_activity = now\<rparr>
                 (clients s2),
             message_buffers := AList.update client_id [] (message_buffers s2)\<rparr>)"

subsection \<open>The framing loop of \<open>_process_data\<close> (lines 198-215)\<close>

text \<open>\<open>buffer.split(b'\n', 1)\<close> for a buffer that holds a newline.\<close>

definition split1 :: "bytes \<Rightarrow> bytes \<times> bytes" where
  "split1 buffer =
     (takeWhile (\<lambda>b. b \<noteq> NL) buffer, tl (dropWhile (\<lambda>b. b \<noteq> NL) buffer))"

text \<open>
  The \<open>while b'\n' in buffer\<close> loop: \<open>messages\<close> is the list built so far; the result is
  the list of messages and the buffer left over.
\<close>

function extract_messages :: "bytes \<Rightarrow> bytes list \<Rightarrow> bytes list \<times> bytes" where
  "extract_messages buffer messages =
     (if NL \<in> set buffer
      then (let (message, rest) = split1 buffer
            in extract_messages rest
                 (if message \<noteq> [] then messages @ [message] else messages))
      else (messages, buffer))"
  by pat_completeness auto
termination
proof (relation "measure (\<lambda>(buffer, messages). length buffer)")
  show "wf (measure (\<lambda>(buffer, messages). length buffer))"
    by simp
next
  fix buffer :: bytes and messages :: "bytes list" and x :: "bytes \<times> bytes" and xa y
  assume nl: "NL \<in> set buffer" and "x = split1 buffer" and "(xa, y) = x"
  then have y: "y = tl (dropWhile (\<lambda>b. b \<noteq> NL) buffer)"
    by (simp add: split1_def)
  from nl have "dropWhile (\<lambda>b. b \<noteq> NL) buffer \<noteq> []"
    by (simp add: dropWhile_eq_Nil_conv)
  then have "length (tl (dropWhile (\<lambda>b. b \<noteq> NL) buffer)) <
      length (dropWhile (\<lambda>b. b \<noteq> NL) buffer)"
    by (cases "dropWhile (\<lambda>b. b \<noteq> NL) buffer") simp_all
  also have "\<dots> \<le> length buffer"
    by (rule length_dropWhile_le)
  finally show
    "((y, if xa \<noteq> [] then messages @ [xa] else messages), (buffer, messages))
      \<in> measure (\<lambda>(buffer, messages). length buffer)"
    by (simp add: y)
qed

declare extract_messages.simps [simp del]

text \<open>The buffer of a connection id; a missing key never reaches the reads below.\<close>

definition buffer_of :: "(pystr, bytes) dict \<Rightarrow> pystr \<Rightarrow> bytes" where
  "buffer_of bufs client_id = (case map_of bufs client_id of None \<Rightarrow> [] | Some b \<Rightarrow> b)"

text \<open>
  The locked block of \<open>_process_data\<close>: create the buffer when the id has none, append
  the chunk, run the loop, store what is left.
\<close>

definition frame_chunk ::
  "(pystr, bytes) dict \<Rightarrow> pystr \<Rightarrow> bytes \<Rightarrow> (pystr, bytes) dict \<times> bytes list" where
  "frame_chunk bufs client_id data =
     (let bufs1 = (if \<not> contains bufs client_id then AList.update client_id [] bufs else bufs);
          bufs2 = AList.update client_id (buffer_of bufs1 client_id @ data) bufs1;
          (messages, buffer) = extract_messages (buffer_of bufs2 client_id) []
      in (AList.update client_id buffer bufs2, messages))"

text \<open>Successive reads on one connection: the chunks go through the framing step in turn.\<close>

fun feed_chunks ::
  "(pystr, bytes) dict \<Rightarrow> pystr \<Rightarrow> bytes list \<Rightarrow> (pystr, bytes) dict \<times> bytes list" where
  "feed_chunks bufs client_id [] = (bufs, [])"
| "feed_chunks bufs client_id (data # chunks) =
     (let (bufs1, messages) = frame_chunk bufs client_id data;
          (bufs2, more) = feed_chunks bufs1 client_id chunks
      in (bufs2, messages @ more))"

subsection \<open>\<open>_process_message\<close> (lines 250-335)\<close>

text \<open>
  \<open>d in self.device_handlers and k in self.device_handlers[d]\<close>, and the handler found
  there.
\<close>

definition lookup_handler :: "tcp_handler \<Rightarrow> pystr \<Rightarrow> pystr \<Rightarrow> handler option" where
  "lookup_handler s d k =
     (case map_of (device_handlers s) d of None \<Rightarrow> None | Some handlers \<Rightarrow> map_of handlers k)"

text \<open>
  A call of a handler. \<open>Inl\<close> carries the state in which an exception left the \<open>try\<close>
  block, \<open>Inr\<close> the result of a normal return with \<open>handler_called = True\<close>. What the
  callback does is its own business: it is recorded as an event, and it is taken not to
  call back into this object.
\<close>

definition call_handler ::
  "env \<Rightarrow> handler \<Rightarrow> payload \<Rightarrow> tcp_handler \<Rightarrow> tcp_handler + tcp_handler \<times> bool" where
  "call_handler e h p s =
     (let s1 = s\<lparr>events := events s @ [Invoke h p]\<rparr>
      in if handler_raises e (events s) h p then Inl s1 else Inr (s1, True))"

definition legacy_type :: "pystr \<Rightarrow> pystr option" where
  "legacy_type message_type =
     (if message_type = py ''E'' then Some (py ''evt'')
      else if message_type = py ''R'' then Some (py ''res'')
      else if message_type = py ''X'' then Some (py ''err'')
      else None)"

text \<open>Step 1 (lines 259-269): the mapped device id and the message type.\<close>

definition dispatch_mapped ::
  "env \<Rightarrow> tcp_handler \<Rightarrow> pystr \<Rightarrow> pystr \<Rightarrow> pystr \<Rightarrow> pystr \<Rightarrow>
   tcp_handler + tcp_handler \<times> bool" where
  "dispatch_mapped e s dev_id message_type raw_device_id content =
     (let original_message = raw_device_id @ message_type @ content
      in case lookup_handler s dev_id message_type of
           Some h \<Rightarrow>
             call_handler e h
               (Payload raw_device_id message_type content (Some original_message))
               (logger DEBUG (MessageReceived raw_device_id message_type content 1) s)
         | None \<Rightarrow> Inr (s, False))"

text \<open>Step 2 (lines 272-281): the raw device id and the message type.\<close>

definition dispatch_raw ::
  "env \<Rightarrow> tcp_handler \<Rightarrow> bool \<Rightarrow> pystr \<Rightarrow> pystr \<Rightarrow> pystr \<Rightarrow>
   tcp_handler + tcp_handler \<times> bool" where
  "dispatch_raw e s handler_called message_type raw_device_id content =
     (if \<not> handler_called then
        (case lookup_handler s raw_device_id message_type of
           Some h \<Rightarrow>
             call_handler e h (Payload raw_device_id message_type content None)
               (logger DEBUG (MessageReceived raw_device_id message_type content 2) s)
         | None \<Rightarrow> Inr (s, handler_called))
      else Inr (s, handler_called))"

text \<open>The legacy mapping (lines 284-316): the \<open>if\<close> and its \<open>elif\<close>.\<close>

definition dispatch_legacy ::
  "env \<Rightarrow> tcp_handler \<Rightarrow> bool \<Rightarrow> pystr \<Rightarrow> pystr \<Rightarrow> pystr \<Rightarrow> pystr \<Rightarrow>
   tcp_handler + tcp_handler \<times> bool" where
  "dispatch_legacy e s handler_called dev_id message_type raw_device_id content =
     (if \<not> handler_called then
        (case legacy_type message_type of
           None \<Rightarrow> Inr (s, handler_called)
         | Some legacy \<Rightarrow>
             (case lookup_handler s dev_id legacy of
                Some h \<Rightarrow>
                  call_handler e h (Payload raw_device_id message_type content None)
                    (logger DEBUG (MessageReceived raw_device_id message_type content 3) s)
              | None \<Rightarrow>
                  (case lookup_handler s raw_device_id legacy of
                     Some h \<Rightarrow>
                       call_handler e h (Payload raw_device_id message_type content None)
                         (logger DEBUG
                            (MessageReceived raw_device_id message_type content 4) s)
                   | None \<Rightarrow> Inr (s, handler_called))))
      else Inr (s, handler_called))"

text \<open>No handler found (lines 319-332).\<close>

definition report_no_handler ::
  "env \<Rightarrow> tcp_handler \<Rightarrow> bool \<Rightarrow> pystr \<Rightarrow> pystr \<Rightarrow> pystr \<Rightarrow> tcp_handler" where
  "report_no_handler e s handler_called dev_id message_type raw_device_id =
     (if \<not> handler_called then
        (let s1 = logger WARNING (NoHandler dev_id message_type raw_device_id) s
         in if debug_enabled e then
              (let handler_keys =
                     concat (map (\<lambda>(d_id, handlers). map (\<lambda>(m_type, h). (d_id, m_type)) handlers)
                       (device_handlers s1))
               in if handler_keys \<noteq> [] then logger DEBUG (RegisteredHandlers handler_keys) s1
                  else logger WARNING NoRegisteredHandlers s1)
            else s1)
      else s)"

text \<open>The body of the \<open>try\<close>, and the method with its \<open>except\<close>.\<close>

definition process_message_try ::
  "env \<Rightarrow> tcp_handler \<Rightarrow> pystr \<Rightarrow> pystr \<Rightarrow> pystr \<Rightarrow> pystr \<Rightarrow> tcp_handler + tcp_handler" where
  "process_message_try e s dev_id message_type raw_device_id content =
     (case dispatch_mapped e s dev_id message_type raw_device_id content of
        Inl x \<Rightarrow> Inl x
      | Inr (s1, called1) \<Rightarrow>
          (case dispatch_raw e s1 called1 message_type raw_device_id content of
             Inl x \<Rightarrow> Inl x
           | Inr (s2, called2) \<Rightarrow>
               (case dispatch_legacy e s2 called2 dev_id message_type raw_device_id content of
                  Inl x \<Rightarrow> Inl x
                | Inr (s3, called3) \<Rightarrow>
                    Inr (report_no_handler e s3 called3 dev_id message_type raw_device_id))))"

definition process_message ::
  "env \<Rightarrow> tcp_handler \<Rightarrow> pystr \<Rightarrow> pystr \<Rightarrow> pystr \<Rightarrow> pystr \<Rightarrow> tcp_handler" where
  "process_message e s dev_id message_type raw_device_id content =
     (case process_message_try e s dev_id message_type raw_device_id content of
        Inl x \<Rightarrow> logger ERROR DispatchError x
      | Inr s' \<Rightarrow> s')"

subsection \<open>\<open>_process_data\<close>: the loop over the framed messages (lines 218-247)\<close>

text \<open>Lines 236-241: the device of a connection is learnt when it has none yet.\<close>

definition learn_device :: "tcp_handler \<Rightarrow> pystr \<Rightarrow> pystr \<Rightarrow> tcp_handler" where
  "learn_device s client_id device_type =
     (case map_of (clients s) client_id of
        None \<Rightarrow> s
      | Some info \<Rightarrow>
          (case device_id info of
             None \<Rightarrow>
               logger INFO (DeviceRegistered device_type client_id)
                 (s\<lparr>clients :=
                      AList.update client_id (info\<lparr>device_id := Some device_type\<rparr>) (clients s)\<rparr>)
           | Some d \<Rightarrow> s))"

text \<open>
  The body of the \<open>for\<close> loop. Of the calls in its \<open>try\<close> block only the decoding can
  raise: \<open>_process_message\<close> catches what its handlers raise.
\<close>

definition handle_message :: "env \<Rightarrow> pystr \<Rightarrow> tcp_handler \<Rightarrow> bytes \<Rightarrow> tcp_handler" where
  "handle_message e client_id s message =
     (case utf8_decode message of
        None \<Rightarrow> logger ERROR MessageProcessingError s
      | Some decoded_message \<Rightarrow>
          if length decoded_message < 2
          then logger WARNING (InvalidFormat decoded_message) s
          else
            (let device_type = [decoded_message ! 0];
                 message_type = [decoded_message ! 1];
                 message_content = drop 2 decoded_message;
                 mapped_device_id = dict_get DEVICE_ID_MAPPING device_type device_type;
                 s1 = learn_device s client_id device_type
             in process_message e s1 mapped_device_id message_type device_type
                  message_content))"

definition process_data :: "env \<Rightarrow> tcp_handler \<Rightarrow> pystr \<Rightarrow> bytes \<Rightarrow> tcp_handler" where
  "process_data e s client_id data =
     (let (bufs, messages) = frame_chunk (message_buffers s) client_id data
      in foldl (handle_message e client_id) (s\<lparr>message_buffers := bufs\<rparr>) messages)"

text \<open>
  One turn of the read loop of \<open>_handle_client_data\<close> (lines 167-178) for a chunk
  that is not empty: the data are processed, then the activity time is set if the
  connection is still in the table.
\<close>

definition receive_chunk ::
  "env \<Rightarrow> tcp_handler \<Rightarrow> pystr \<Rightarrow> bytes \<Rightarrow> real \<Rightarrow> tcp_handler" where
  "receive_chunk e s client_id data now =
     (let s1 = process_data e s client_id data
      in case map_of (clients s1) client_id of
           None \<Rightarrow> s1
         | Some info \<Rightarrow>
             s1\<lparr>clients := AList.update client_id (info\<lparr>last_activity := now\<rparr>) (clients s1)\<rparr>)"

subsection \<open>\<open>register_device_handler\<close> (lines 395-401)\<close>

definition register_device_handler ::
  "tcp_handler \<Rightarrow> pystr \<Rightarrow> pystr \<Rightarrow> handler \<Rightarrow> tcp_handler" where
  "register_device_handler s dev_id message_type h =
     (let hs = (if \<not> contains (device_handlers s) dev_id
                then AList.update dev_id [] (device_handlers s) else device_handlers s)
      in logger DEBUG (HandlerRegistered dev_id message_type)
           (s\<lparr>device_handlers :=
                AList.update dev_id (AList.update message_type h (dict_get hs dev_id [])) hs\<rparr>))"

subsection \<open>\<open>_remove_client\<close> (lines 404-423)\<close>

text \<open>
  The \<open>try\<close> block closes the socket first: when \<open>close()\<close> raises, control goes to
  the \<open>except\<close> clause and the two \<open>del\<close> statements are not reached.
  \<open>if device_id:\<close> holds for a string that is neither \<open>None\<close> nor empty.
\<close>

definition remove_client :: "env \<Rightarrow> tcp_handler \<Rightarrow> pystr \<Rightarrow> tcp_handler" where
  "remove_client e s client_id =
     (case map_of (clients s) client_id of
        None \<Rightarrow> s
      | Some info \<Rightarrow>
          (let dev = device_id info;
               s1 = s\<lparr>events := events s @ [SockClose (socket info)]\<rparr>
           in if close_raises e (events s) (socket info)
              then logger ERROR ClientCloseError s1
              else
                (let s2 = s1\<lparr>clients := AList.delete client_id (clients s1)\<rparr>;
                     s3 = (if contains (message_buffers s2) client_id
                           then s2\<lparr>message_buffers :=
                                     AList.delete client_id (message_buffers s2)\<rparr>
                           else s2)
                 in case dev of
                      None \<Rightarrow> s3
                    | Some d \<Rightarrow> if d \<noteq> [] then logger INFO (DeviceDisconnected d) s3 else s3)))"

subsection \<open>\<open>_find_client_by_device\<close> (lines 426-433)\<close>

fun find_client :: "(pystr, client_info) dict \<Rightarrow> pystr \<Rightarrow> pystr option" where
  "find_client [] dev_id = None"
| "find_client ((client_id, info) # rest) dev_id =
     (if device_id info = Some dev_id then Some client_id else find_client rest dev_id)"

definition find_client_by_device :: "tcp_handler \<Rightarrow> pystr \<Rightarrow> pystr option" where
  "find_client_by_device s dev_id = find_client (clients s) dev_id"

subsection \<open>\<open>send_message\<close> (lines 339-392)\<close>

text \<open>Lines 345-367: no client was found for the device.\<close>

definition reverse_mapping :: "(pystr, pystr) dict" where
  "reverse_mapping = foldl (\<lambda>d (k, v). AList.update v k d) [] DEVICE_ID_MAPPING"

definition report_no_connection :: "tcp_handler \<Rightarrow> pystr \<Rightarrow> tcp_handler" where
  "report_no_connection s dev_id =
     (let s1 = logger ERROR (NoConnection dev_id) s;
          client_list =
            map (\<lambda>(cid, info). (cid, device_id info, fst (address info), snd (address info)))
              (clients s1);
          s2 = (if client_list \<noteq> [] then logger INFO (ConnectedClients client_list) s1
                else logger WARNING NoClients s1)
      in case map_of reverse_mapping dev_id of
           Some mapped_id \<Rightarrow> logger INFO (MappedRawId mapped_id) s2
         | None \<Rightarrow> s2)"

text \<open>
  Lines 370-387, the \<open>try\<close> block: \<open>Inl\<close> is an exception (from \<open>encode\<close> or from
  \<open>sendall\<close>), \<open>Inr\<close> the value returned.
\<close>

definition send_try ::
  "env \<Rightarrow> tcp_handler \<Rightarrow> pystr \<Rightarrow> pystr \<Rightarrow> pystr \<Rightarrow> real \<Rightarrow>
   tcp_handler + tcp_handler \<times> bool" where
  "send_try e s client_id dev_id command now =
     (case map_of (clients s) client_id of
        None \<Rightarrow> Inr (s, False)
      | Some info \<Rightarrow>
          (let client_socket = socket info;
               command1 = (if \<not> endswith_newline command then command @ [10] else command)
           in case utf8_encode command1 of
                None \<Rightarrow> Inl s
              | Some data \<Rightarrow>
                  (let s1 = s\<lparr>events := events s @ [SockSendAll client_socket data]\<rparr>
                   in if sendall_raises e (events s) client_socket data then Inl s1
                      else Inr
                        (logger INFO (SendSuccess dev_id (strip command1))
                           (s1\<lparr>clients :=
                                 AList.update client_id (info\<lparr>last_activity := now\<rparr>)
                                   (clients s1)\<rparr>),
                         True))))"

text \<open>\<open>if not client_id\<close> holds for \<open>None\<close> and for the empty string.\<close>

definition send_message ::
  "env \<Rightarrow> tcp_handler \<Rightarrow> pystr \<Rightarrow> pystr \<Rightarrow> real \<Rightarrow> tcp_handler \<times> bool" where
  "send_message e s dev_id command now =
     (case find_client_by_device s dev_id of
        None \<Rightarrow> (report_no_connection s dev_id, False)
      | Some client_id \<Rightarrow>
          if client_id = [] then (report_no_connection s dev_id, False)
          else
            (case send_try e s client_id dev_id command now of
               Inr r \<Rightarrow> r
             | Inl s' \<Rightarrow>
                 (remove_client e (logger ERROR (SendError dev_id) s') client_id, False)))"

subsection \<open>\<open>_cleanup_inactive_clients\<close> (lines 450-465)\<close>

definition inactive_clients :: "tcp_handler \<Rightarrow> real \<Rightarrow> int \<Rightarrow> pystr list" where
  "inactive_clients s current_time timeout =
     map fst
       (filter (\<lambda>(client_id, info). idle_exceeds current_time (last_activity info) timeout)
          (clients s))"

text \<open>The body of the second loop (lines 464-465), then the method.\<close>

definition evict_inactive :: "env \<Rightarrow> tcp_handler \<Rightarrow> pystr \<Rightarrow> tcp_handler" where
  "evict_inactive e s client_id =
     remove_client e (logger INFO (InactiveClientRemoved client_id) s) client_id"

definition cleanup_inactive_clients ::
  "env \<Rightarrow> tcp_handler \<Rightarrow> real \<Rightarrow> int \<Rightarrow> tcp_handler" where
  "cleanup_inactive_clients e s current_time timeout =
     foldl (evict_inactive e) s (inactive_clients s current_time timeout)"

subsection \<open>What the specification says of the framer\<close>

text \<open>
  Splitting a stream on a separator, as \<open>bytes.split\<close> does: the segments between
  separators, the last one being what follows the last separator.
\<close>

fun split_on :: "'a \<Rightarrow> 'a list \<Rightarrow> 'a list list" where
  "split_on sep [] = [[]]"
| "split_on sep (x # xs) =
     (if x = sep then [] # split_on sep xs
      else (x # hd (split_on sep xs)) # tl (split_on sep xs))"

definition spec_messages :: "bytes \<Rightarrow> bytes list" where
  "spec_messages stream = filter (\<lambda>m. m \<noteq> []) (butlast (split_on NL stream))"

definition spec_residual :: "bytes \<Rightarrow> bytes" where
  "spec_residual stream = last (split_on NL stream)"

subsection \<open>What the specification says of the dispatcher\<close>

text \<open>
  The legacy aliases as the specification words them: event, response and error.
\<close>

definition spec_legacy_alias :: "(pystr, pystr) dict" where
  "spec_legacy_alias =
     [(py ''E'', py ''event''), (py ''R'', py ''response''), (py ''X'', py ''error'')]"

text \<open>The legacy aliases under the names of lines 287-292: \<open>evt\<close>, \<open>res\<close> and \<open>err\<close>.\<close>

definition amended_legacy_alias :: "(pystr, pystr) dict" where
  "amended_legacy_alias =
     [(py ''E'', py ''evt''), (py ''R'', py ''res''), (py ''X'', py ''err'')]"

text \<open>
  The four strategies in their fixed order for a table of aliases; the last two only for
  a kind with an alias.
\<close>

definition spec_strategies ::
  "(pystr, pystr) dict \<Rightarrow> pystr \<Rightarrow> pystr \<Rightarrow> pystr \<Rightarrow> (pystr \<times> pystr) list" where
  "spec_strategies aliases canonical raw_tag kind =
     [(canonical, kind), (raw_tag, kind)] @
     (case map_of aliases kind of
        None \<Rightarrow> []
      | Some alias \<Rightarrow> [(canonical, alias), (raw_tag, alias)])"

text \<open>The first strategy, counted from \<open>n\<close>, under which a handler is registered.\<close>

fun first_match ::
  "tcp_handler \<Rightarrow> nat \<Rightarrow> (pystr \<times> pystr) list \<Rightarrow> (nat \<times> handler) option" where
  "first_match s n [] = None"
| "first_match s n ((d, k) # rest) =
     (case lookup_handler s d k of
        Some h \<Rightarrow> Some (n, h)
      | None \<Rightarrow> first_match s (Suc n) rest)"

text \<open>
  The handler call that a framed line leads to, read off the line and the table of
  handlers: none for a line that cannot be decoded or is too short, and otherwise what the
  first matching strategy gives.
\<close>

definition expected_calls :: "tcp_handler \<Rightarrow> bytes \<Rightarrow> (handler \<times> payload) list" where
  "expected_calls s message =
     (case utf8_decode message of
        None \<Rightarrow> []
      | Some t \<Rightarrow>
          if length t < 2 then []
          else
            (let raw_tag = [t ! 0]; kind = [t ! 1]; content = drop 2 t;
                 canonical = dict_get DEVICE_ID_MAPPING raw_tag raw_tag
             in case first_match s 1
                       (spec_strategies amended_legacy_alias canonical raw_tag kind) of
                  None \<Rightarrow> []
                | Some (n, h) \<Rightarrow>
                    [(h, Payload raw_tag kind content
                           (if n = 1 then Some (raw_tag @ kind @ content) else None))]))"

text \<open>The tag of the first line among some that decodes to two characters or more.\<close>

fun first_tag :: "bytes list \<Rightarrow> pystr option" where
  "first_tag [] = None"
| "first_tag (m # ms) =
     (case utf8_decode m of
        None \<Rightarrow> first_tag ms
      | Some t \<Rightarrow> if length t < 2 then first_tag ms else Some [t ! 0])"

subsection \<open>Reading states and events\<close>

text \<open>The events a call added, and the handler calls among them with their arguments.\<close>

definition new_events :: "tcp_handler \<Rightarrow> tcp_handler \<Rightarrow> event list" where
  "new_events s s' = drop (length (events s)) (events s')"

definition invocations :: "event list \<Rightarrow> (handler \<times> payload) list" where
  "invocations evs = concat (map (\<lambda>ev. case ev of Invoke h p \<Rightarrow> [(h, p)] | _ \<Rightarrow> []) evs)"

text \<open>
  The sockets closed, the \<open>sendall\<close> calls and the evictions the sweeper announced,
  among some events.
\<close>

definition closes :: "event list \<Rightarrow> sock list" where
  "closes evs = concat (map (\<lambda>ev. case ev of SockClose sk \<Rightarrow> [sk] | _ \<Rightarrow> []) evs)"

definition sends :: "event list \<Rightarrow> (sock \<times> bytes) list" where
  "sends evs = concat (map (\<lambda>ev. case ev of SockSendAll sk data \<Rightarrow> [(sk, data)] | _ \<Rightarrow> []) evs)"

definition sweep_removals :: "event list \<Rightarrow> pystr list" where
  "sweep_removals evs =
     concat (map (\<lambda>ev. case ev of Log lv (InactiveClientRemoved cid) \<Rightarrow> [cid] | _ \<Rightarrow> []) evs)"

text \<open>The device identity the table holds for a connection id, if any.\<close>

definition device_of :: "tcp_handler \<Rightarrow> pystr \<Rightarrow> pystr option" where
  "device_of s client_id =
     (case map_of (clients s) client_id of None \<Rightarrow> None | Some info \<Rightarrow> device_id info)"

subsection \<open>Environments and states of the examples\<close>

text \<open>An environment in which no call raises.\<close>

definition quiet_env :: env where
  "quiet_env =
     \<lparr>close_raises = (\<lambda>evs sk. False), sendall_raises = (\<lambda>evs sk data. False),
      handler_raises = (\<lambda>evs h p. False), debug_enabled = False\<rparr>"

text \<open>
  An environment in which the first \<open>close()\<close> of a socket raises and a later one
  returns, as for a socket whose descriptor the failed call has already released.
\<close>

definition close_fails_once :: env where
  "close_fails_once =
     \<lparr>close_raises = (\<lambda>evs sk. SockClose sk \<notin> set evs),
      sendall_raises = (\<lambda>evs sk data. False),
      handler_raises = (\<lambda>evs h p. False), debug_enabled = False\<rparr>"

text \<open>
  A connection from an address with no registration, and a handler registered for
  \<open>sort_controller\<close> and the kind \<open>E\<close>.
\<close>

definition one_handler :: tcp_handler where
  "one_handler =
     register_device_handler
       (accept_connection (init_handler []) 5 (py ''192.168.0.21'', 50123) 100)
       (py ''sort_controller'') (py ''E'') 1"

text \<open>
  A connection accepted from an address that the configuration registers for
  \<open>sort_controller\<close>.
\<close>

definition sorter_connected :: tcp_handler where
  "sorter_connected =
     accept_connection (init_handler [(py ''192.168.0.21'', py ''sort_controller'')]) 5
       (py ''192.168.0.21'', 50123) 100"

text \<open>Three connections, last active at times 399, 401 and 400.\<close>

definition three_connections :: tcp_handler where
  "three_connections =
     accept_connection
       (accept_connection
          (accept_connection (init_handler []) 5 (py ''10.0.0.1'', 5001) 399)
          6 (py ''10.0.0.2'', 5002) 401)
       7 (py ''10.0.0.3'', 5003) 400"

section \<open>Framing\<close>

lemma split_on_not_Nil [simp]: "split_on sep xs \<noteq> []"
  by (induction xs) simp_all

lemma split_on_no_sep: "sep \<notin> set xs \<Longrightarrow> split_on sep xs = [xs]"
  by (induction xs) auto

lemma split_on_append_sep:
  "split_on sep (xs @ sep # ys) = split_on sep xs @ split_on sep ys"
proof (induction xs)
  case Nil
  then show ?case by simp
next
  case (Cons x xs)
  then show ?case
    by (cases "split_on sep xs") simp_all
qed

lemma split_on_append:
  "split_on sep (xs @ ys) =
     butlast (split_on sep xs) @ split_on sep (last (split_on sep xs) @ ys)"
proof (induction xs)
  case Nil
  then show ?case by simp
next
  case (Cons x xs)
  show ?case
  proof (cases "x = sep")
    case True
    with Cons show ?thesis by simp
  next
    case False
    show ?thesis
    proof (cases "butlast (split_on sep xs)")
      case Nil
      then have one: "split_on sep xs = [last (split_on sep xs)]"
        by (metis append_butlast_last_id append_Nil split_on_not_Nil)
      then have "split_on sep (x # xs) = [x # last (split_on sep xs)]"
        using False by (metis list.sel(1) list.sel(3) split_on.simps(2))
      with Cons Nil False show ?thesis
        by simp
    next
      case (Cons s ss)
      then have two: "split_on sep xs = (s # ss) @ [last (split_on sep xs)]"
        by (metis append_butlast_last_id split_on_not_Nil)
      have "split_on sep (x # xs) = ((x # s) # ss) @ [last (split_on sep xs)]"
        using False by (subst split_on.simps, subst (1 2) two) simp
      moreover have "split_on sep (x # xs @ ys) =
          ((x # s) # ss) @ split_on sep (last (split_on sep xs) @ ys)"
        using False Cons.IH Cons by simp
      ultimately show ?thesis
        by simp
    qed
  qed
qed

lemma residual_no_NL: "NL \<notin> set (spec_residual stream)"
  unfolding spec_residual_def
proof (induction stream)
  case Nil
  then show ?case by simp
next
  case (Cons x xs)
  then show ?case
    by (cases "split_on NL xs") (auto split: if_splits)
qed

lemma spec_messages_append:
  "spec_messages (xs @ ys) = spec_messages xs @ spec_messages (spec_residual xs @ ys)"
  by (simp add: spec_messages_def spec_residual_def split_on_append [of NL xs ys]
      butlast_append)

lemma spec_residual_append:
  "spec_residual (xs @ ys) = spec_residual (spec_residual xs @ ys)"
  by (simp add: spec_residual_def split_on_append [of NL xs ys])

lemma spec_no_NL:
  "NL \<notin> set stream \<Longrightarrow> spec_messages stream = [] \<and> spec_residual stream = stream"
  by (simp add: spec_messages_def spec_residual_def split_on_no_sep)

lemma split1_decompose:
  "NL \<in> set buffer \<Longrightarrow> buffer = fst (split1 buffer) @ NL # snd (split1 buffer)"
proof -
  assume "NL \<in> set buffer"
  then have "dropWhile (\<lambda>b. b \<noteq> NL) buffer \<noteq> []"
    by (simp add: dropWhile_eq_Nil_conv)
  then have "dropWhile (\<lambda>b. b \<noteq> NL) buffer = NL # tl (dropWhile (\<lambda>b. b \<noteq> NL) buffer)"
    by (metis (mono_tags, lifting) hd_dropWhile list.collapse)
  then show ?thesis
    by (metis fst_conv snd_conv split1_def takeWhile_dropWhile_id)
qed

lemma split1_fst_no_NL: "NL \<notin> set (fst (split1 buffer))"
  by (auto simp: split1_def dest: set_takeWhileD)

lemma spec_split1:
  assumes "NL \<in> set buffer"
  shows "spec_messages buffer =
      (if fst (split1 buffer) \<noteq> [] then [fst (split1 buffer)] else []) @
      spec_messages (snd (split1 buffer))"
    and "spec_residual buffer = spec_residual (snd (split1 buffer))"
proof -
  let ?m = "fst (split1 buffer)" and ?r = "snd (split1 buffer)"
  have "split_on NL buffer = split_on NL (?m @ NL # ?r)"
    using split1_decompose [OF assms] by simp
  also have "\<dots> = [?m] @ split_on NL ?r"
    by (simp add: split_on_append_sep split_on_no_sep split1_fst_no_NL)
  finally have eq: "split_on NL buffer = ?m # split_on NL ?r"
    by simp
  show "spec_messages buffer = (if ?m \<noteq> [] then [?m] else []) @ spec_messages ?r"
    by (simp add: spec_messages_def eq)
  show "spec_residual buffer = spec_residual ?r"
    by (simp add: spec_residual_def eq)
qed

lemma extract_messages_spec:
  "extract_messages buffer messages =
     (messages @ spec_messages buffer, spec_residual buffer)"
proof (induction buffer messages rule: extract_messages.induct)
  case (1 buffer messages)
  show ?case
  proof (cases "NL \<in> set buffer")
    case False
    then show ?thesis
      by (subst extract_messages.simps) (simp add: spec_no_NL)
  next
    case True
    obtain message rest where sp: "split1 buffer = (message, rest)"
      by (cases "split1 buffer")
    have "extract_messages buffer messages =
        extract_messages rest (if message \<noteq> [] then messages @ [message] else messages)"
      using True sp by (subst extract_messages.simps) simp
    also have "\<dots> = ((if message \<noteq> [] then messages @ [message] else messages) @
        spec_messages rest, spec_residual rest)"
      using "1.IH" [OF True sp [symmetric] refl] .
    also have "\<dots> = (messages @ spec_messages buffer, spec_residual buffer)"
      using spec_split1 [OF True] sp by simp
    finally show ?thesis .
  qed
qed

lemma map_of_update_same: "map_of (AList.update k v d) k = Some v"
  by (simp add: update_conv')

lemma frame_chunk_spec:
  "snd (frame_chunk bufs client_id data) = spec_messages (buffer_of bufs client_id @ data)"
  "buffer_of (fst (frame_chunk bufs client_id data)) client_id =
     spec_residual (buffer_of bufs client_id @ data)"
  by (simp_all add: frame_chunk_def Let_def extract_messages_spec buffer_of_def
      contains_def update_conv' split: option.splits)

lemma feed_chunks_clean:
  "NL \<notin> set (buffer_of bufs client_id) \<Longrightarrow>
   snd (feed_chunks bufs client_id chunks) =
     spec_messages (buffer_of bufs client_id @ concat chunks) \<and>
   buffer_of (fst (feed_chunks bufs client_id chunks)) client_id =
     spec_residual (buffer_of bufs client_id @ concat chunks)"
proof (induction chunks arbitrary: bufs)
  case Nil
  then show ?case
    by (simp add: spec_no_NL)
next
  case (Cons data chunks)
  let ?b1 = "fst (frame_chunk bufs client_id data)"
  have clean: "NL \<notin> set (buffer_of ?b1 client_id)"
    by (simp add: frame_chunk_spec residual_no_NL)
  from Cons.IH [OF clean] show ?case
    by (simp add: split_beta frame_chunk_spec
        spec_messages_append [of "buffer_of bufs client_id @ data" "concat chunks", simplified]
        spec_residual_append [of "buffer_of bufs client_id @ data" "concat chunks", simplified])
qed

text \<open>
  C1. Whatever the receive buffer holds at the start and however the stream is cut into
  chunks, the messages the framing step of \<open>_process_data\<close> extracts over the successive
  chunks are, in order, the non-empty segments that splitting the whole stream (buffer
  followed by all chunks) on the newline byte gives before its last newline, and the
  buffer left is what follows the last newline. The chunks enter the result only through
  their concatenation. (With no chunk at all nothing is framed, so the statement asks for
  one chunk at least, or for a buffer that holds no newline, as every buffer the framer
  leaves does.)
\<close>

theorem framing_independent_of_chunking:
  assumes "chunks \<noteq> [] \<or> NL \<notin> set (buffer_of bufs client_id)"
  shows "snd (feed_chunks bufs client_id chunks) =
           spec_messages (buffer_of bufs client_id @ concat chunks) \<and>
         buffer_of (fst (feed_chunks bufs client_id chunks)) client_id =
           spec_residual (buffer_of bufs client_id @ concat chunks)"
proof (cases chunks)
  case Nil
  with assms show ?thesis
    using feed_chunks_clean [of bufs client_id "[]"] by simp
next
  case (Cons data rest)
  let ?b1 = "fst (frame_chunk bufs client_id data)"
  have clean: "NL \<notin> set (buffer_of ?b1 client_id)"
    by (simp add: frame_chunk_spec residual_no_NL)
  from feed_chunks_clean [OF clean, of rest] show ?thesis
    by (simp add: Cons split_beta frame_chunk_spec
        spec_messages_append [of "buffer_of bufs client_id @ data" "concat rest", simplified]
        spec_residual_append [of "buffer_of bufs client_id @ data" "concat rest", simplified])
qed

text \<open>
  The stream \<open>SE01\n\nHE\nG\<close> read as three chunks and as one: the same two messages
  \<open>SE01\<close> and \<open>HE\<close>, the same buffer \<open>G\<close> left.
\<close>

theorem framing_independent_of_chunking_witness:
  "snd (feed_chunks [] (py ''10.0.0.7:4242'') [[83, 69, 48], [49, 10, 10, 72], [69, 10, 71]]) =
     [[83, 69, 48, 49], [72, 69]] \<and>
   buffer_of (fst (feed_chunks [] (py ''10.0.0.7:4242'')
     [[83, 69, 48], [49, 10, 10, 72], [69, 10, 71]])) (py ''10.0.0.7:4242'') = [71] \<and>
   snd (feed_chunks [] (py ''10.0.0.7:4242'') [[83, 69, 48, 49, 10, 10, 72, 69, 10, 71]]) =
     [[83, 69, 48, 49], [72, 69]] \<and>
   buffer_of (fst (feed_chunks [] (py ''10.0.0.7:4242'')
     [[83, 69, 48, 49, 10, 10, 72, 69, 10, 71]])) (py ''10.0.0.7:4242'') = [71]"
  using
    framing_independent_of_chunking
      [of "[[83, 69, 48], [49, 10, 10, 72], [69, 10, 71]]" "[]" "py ''10.0.0.7:4242''"]
    framing_independent_of_chunking
      [of "[[83, 69, 48, 49, 10, 10, 72, 69, 10, 71]]" "[]" "py ''10.0.0.7:4242''"]
  by (simp add: buffer_of_def spec_messages_def spec_residual_def NL_def)

section \<open>Dispatch\<close>

lemma legacy_type_spec: "legacy_type k = map_of amended_legacy_alias k"
  by (simp add: legacy_type_def amended_legacy_alias_def)

lemma lookup_handler_events [simp]:
  "lookup_handler (s\<lparr>events := evs\<rparr>) d k = lookup_handler s d k"
  by (simp add: lookup_handler_def)

lemma lookup_handler_logger [simp]:
  "lookup_handler (logger lv m s) d k = lookup_handler s d k"
  by (simp add: lookup_handler_def logger_def)

lemma dispatch_raw_called [simp]: "dispatch_raw e s True mt raw c = Inr (s, True)"
  by (simp add: dispatch_raw_def)

lemma dispatch_legacy_called [simp]: "dispatch_legacy e s True d mt raw c = Inr (s, True)"
  by (simp add: dispatch_legacy_def)

lemma report_no_handler_called [simp]: "report_no_handler e s True d mt raw = s"
  by (simp add: report_no_handler_def)

lemma invocations_simps [simp]:
  "invocations [] = []"
  "invocations (Log lv m # evs) = invocations evs"
  "invocations (Invoke h p # evs) = (h, p) # invocations evs"
  "invocations (SockClose sk # evs) = invocations evs"
  "invocations (SockSendAll sk bs # evs) = invocations evs"
  by (simp_all add: invocations_def)

lemma invocations_append [simp]: "invocations (xs @ ys) = invocations xs @ invocations ys"
  by (simp add: invocations_def)

lemma closes_simps [simp]:
  "closes [] = []"
  "closes (Log lv m # evs) = closes evs"
  "closes (Invoke h p # evs) = closes evs"
  "closes (SockClose sk # evs) = sk # closes evs"
  "closes (SockSendAll sk bs # evs) = closes evs"
  by (simp_all add: closes_def)

lemma closes_append [simp]: "closes (xs @ ys) = closes xs @ closes ys"
  by (simp add: closes_def)

lemma report_no_handler_events:
  "\<exists>logs. events (report_no_handler e s False d mt raw) = events s @ logs \<and>
     invocations logs = [] \<and> closes logs = []"
  by (simp add: report_no_handler_def logger_def Let_def)

text \<open>What one call of a handler under a debug line adds, whether it returns or raises.\<close>

lemma process_message_call:
  assumes "process_message_try e s d mt raw c =
      (case call_handler e h p (logger DEBUG m s) of Inl x \<Rightarrow> Inl x | Inr (s', b) \<Rightarrow> Inr s')"
  shows "\<exists>logs. events (process_message e s d mt raw c) =
      events s @ [Log DEBUG m, Invoke h p] @ logs \<and> invocations logs = [] \<and> closes logs = []"
  using assms
  by (cases "handler_raises e (events (logger DEBUG m s)) h p")
    (simp_all add: process_message_def call_handler_def logger_def Let_def)

lemma dispatch_events:
  "\<exists>new. events (process_message e s dev_id message_type raw_device_id content) = events s @ new \<and>
     closes new = [] \<and>
     invocations new =
       (case first_match s 1 (spec_strategies amended_legacy_alias dev_id raw_device_id
            message_type) of
          None \<Rightarrow> []
        | Some (n, h) \<Rightarrow>
            [(h, Payload raw_device_id message_type content
                   (if n = 1 then Some (raw_device_id @ message_type @ content) else None))])"
proof (cases "lookup_handler s dev_id message_type")
  case (Some h)
  let ?p = "Payload raw_device_id message_type content
      (Some (raw_device_id @ message_type @ content))"
  have "process_message_try e s dev_id message_type raw_device_id content =
      (case call_handler e h ?p
              (logger DEBUG (MessageReceived raw_device_id message_type content 1) s) of
         Inl x \<Rightarrow> Inl x | Inr (s', b) \<Rightarrow> Inr s')"
    using Some
    by (simp add: process_message_try_def dispatch_mapped_def call_handler_def Let_def)
  from process_message_call [OF this] Some show ?thesis
    by (auto simp: spec_strategies_def)
next
  case None
  note first = None
  show ?thesis
  proof (cases "lookup_handler s raw_device_id message_type")
    case (Some h)
    let ?p = "Payload raw_device_id message_type content None"
    have "process_message_try e s dev_id message_type raw_device_id content =
      (case call_handler e h ?p
              (logger DEBUG (MessageReceived raw_device_id message_type content 2) s) of
         Inl x \<Rightarrow> Inl x | Inr (s', b) \<Rightarrow> Inr s')"
      using Some first
      by (simp add: process_message_try_def dispatch_mapped_def dispatch_raw_def
          call_handler_def Let_def)
    from process_message_call [OF this] Some first show ?thesis
      by (auto simp: spec_strategies_def)
  next
    case None
    note second = None
    show ?thesis
    proof (cases "legacy_type message_type")
      case None
      then have "process_message e s dev_id message_type raw_device_id content =
          report_no_handler e s False dev_id message_type raw_device_id"
        using first second
        by (simp add: process_message_def process_message_try_def dispatch_mapped_def
            dispatch_raw_def dispatch_legacy_def)
      with report_no_handler_events [of e s dev_id message_type raw_device_id]
      show ?thesis
        using first second None by (auto simp: spec_strategies_def legacy_type_spec)
    next
      case (Some legacy)
      note leg = Some
      show ?thesis
      proof (cases "lookup_handler s dev_id legacy")
        case (Some h)
        let ?p = "Payload raw_device_id message_type content None"
        have "process_message_try e s dev_id message_type raw_device_id content =
          (case call_handler e h ?p
                  (logger DEBUG (MessageReceived raw_device_id message_type content 3) s) of
             Inl x \<Rightarrow> Inl x | Inr (s', b) \<Rightarrow> Inr s')"
          using Some first second leg
          by (simp add: process_message_try_def dispatch_mapped_def dispatch_raw_def
              dispatch_legacy_def call_handler_def Let_def)
        from process_message_call [OF this] Some first second leg show ?thesis
          by (auto simp: spec_strategies_def legacy_type_spec)
      next
        case None
        note third = None
        show ?thesis
        proof (cases "lookup_handler s raw_device_id legacy")
          case (Some h)
          let ?p = "Payload raw_device_id message_type content None"
          have "process_message_try e s dev_id message_type raw_device_id content =
            (case call_handler e h ?p
                    (logger DEBUG (MessageReceived raw_device_id message_type content 4) s) of
               Inl x \<Rightarrow> Inl x | Inr (s', b) \<Rightarrow> Inr s')"
            using Some first second third leg
            by (simp add: process_message_try_def dispatch_mapped_def dispatch_raw_def
                dispatch_legacy_def call_handler_def Let_def)
          from process_message_call [OF this] Some first second third leg show ?thesis
            by (auto simp: spec_strategies_def legacy_type_spec)
        next
          case None
          then have "process_message e s dev_id message_type raw_device_id content =
              report_no_handler e s False dev_id message_type raw_device_id"
            using first second third leg
            by (simp add: process_message_def process_message_try_def dispatch_mapped_def
                dispatch_raw_def dispatch_legacy_def)
          with report_no_handler_events [of e s dev_id message_type raw_device_id]
          show ?thesis
            using first second third leg None
            by (auto simp: spec_strategies_def legacy_type_spec)
        qed
      qed
    qed
  qed
qed

text \<open>
  C2. For every message \<open>(canonical id, raw tag, kind, content)\<close> and every table of
  registered handlers, \<open>_process_message\<close> adds events after those already there, and
  the handler calls among them are: none when no strategy matches, and otherwise exactly
  one call, of the handler of the first strategy that matches in the order
  (canonical id, kind), (raw tag, kind), (canonical id, alias of kind),
  (raw tag, alias of kind), the aliases being \<open>evt\<close> for \<open>E\<close>, \<open>res\<close> for \<open>R\<close>,
  \<open>err\<close> for \<open>X\<close> and none for another kind. The call carries the raw tag, the kind
  and the content, and the reconstructed line for the first strategy only. This holds
  whether the handler returns or raises.
\<close>

theorem dispatch_first_match:
  "take (length (events s))
     (events (process_message e s dev_id message_type raw_device_id content)) = events s \<and>
   invocations (new_events s (process_message e s dev_id message_type raw_device_id content)) =
     (case first_match s 1 (spec_strategies amended_legacy_alias dev_id raw_device_id
            message_type) of
        None \<Rightarrow> []
      | Some (n, h) \<Rightarrow>
          [(h, Payload raw_device_id message_type content
                 (if n = 1 then Some (raw_device_id @ message_type @ content) else None))])"
  using dispatch_events [of e s dev_id message_type raw_device_id content]
  by (auto simp: new_events_def)

text \<open>
  Handlers registered for \<open>sort_controller\<close> and for \<open>S\<close> under \<open>E\<close>: the canonical
  one is called. A handler registered under \<open>S\<close> and \<open>evt\<close> only: it is called, by
  the fourth strategy.
\<close>

theorem dispatch_first_match_witness:
  "invocations
     (new_events
        (register_device_handler
           (register_device_handler (init_handler []) (py ''sort_controller'') (py ''E'') 1)
           (py ''S'') (py ''E'') 2)
        (process_message quiet_env
           (register_device_handler
              (register_device_handler (init_handler []) (py ''sort_controller'') (py ''E'') 1)
              (py ''S'') (py ''E'') 2)
           (py ''sort_controller'') (py ''E'') (py ''S'') (py ''01''))) =
     [(1, Payload (py ''S'') (py ''E'') (py ''01'') (Some (py ''SE01'')))] \<and>
   invocations
     (new_events
        (register_device_handler (init_handler []) (py ''S'') (py ''evt'') 7)
        (process_message quiet_env
           (register_device_handler (init_handler []) (py ''S'') (py ''evt'') 7)
           (py ''sort_controller'') (py ''E'') (py ''S'') (py ''01''))) =
     [(7, Payload (py ''S'') (py ''E'') (py ''01'') None)]"
  using
    dispatch_first_match
      [of "register_device_handler
             (register_device_handler (init_handler []) (py ''sort_controller'') (py ''E'') 1)
             (py ''S'') (py ''E'') 2"
          quiet_env "py ''sort_controller''" "py ''E''" "py ''S''" "py ''01''"]
    dispatch_first_match
      [of "register_device_handler (init_handler []) (py ''S'') (py ''evt'') 7"
          quiet_env "py ''sort_controller''" "py ''E''" "py ''S''" "py ''01''"]
  by (simp add: spec_strategies_def amended_legacy_alias_def lookup_handler_def
      register_device_handler_def init_handler_def contains_def dict_get_def logger_def
      py_def)

text \<open>
  A handler registered for \<open>sort_controller\<close> under the name \<open>event\<close>: by the
  aliases as the specification words them it is the third strategy for \<open>SE01\<close>, but
  no handler is called.
\<close>

theorem dispatch_spec_alias_counterexample:
  "first_match
     (register_device_handler (init_handler []) (py ''sort_controller'') (py ''event'') 7) 1
     (spec_strategies spec_legacy_alias (py ''sort_controller'') (py ''S'') (py ''E'')) =
     Some (3, 7) \<and>
   invocations
     (new_events
        (register_device_handler (init_handler []) (py ''sort_controller'') (py ''event'') 7)
        (process_message quiet_env
           (register_device_handler (init_handler []) (py ''sort_controller'') (py ''event'') 7)
           (py ''sort_controller'') (py ''E'') (py ''S'') (py ''01''))) = []"
proof -
  let ?s = "register_device_handler (init_handler []) (py ''sort_controller'') (py ''event'') 7"
  have hs: "device_handlers ?s = [(py ''sort_controller'', [(py ''event'', 7)])]"
    by (simp add: register_device_handler_def init_handler_def contains_def dict_get_def
        logger_def)
  have a: "first_match ?s 1
      (spec_strategies spec_legacy_alias (py ''sort_controller'') (py ''S'') (py ''E'')) =
      Some (3, 7)"
    by (simp add: spec_strategies_def spec_legacy_alias_def lookup_handler_def hs)
      (simp add: py_def)
  have b: "first_match ?s 1
      (spec_strategies amended_legacy_alias (py ''sort_controller'') (py ''S'') (py ''E'')) = None"
    by (simp add: spec_strategies_def amended_legacy_alias_def lookup_handler_def hs)
      (simp add: py_def)
  obtain new where new:
    "events (process_message quiet_env ?s (py ''sort_controller'') (py ''E'') (py ''S'')
       (py ''01'')) = events ?s @ new"
    "invocations new =
       (case first_match ?s 1
          (spec_strategies amended_legacy_alias (py ''sort_controller'') (py ''S'') (py ''E'')) of
          None \<Rightarrow> []
        | Some (n, h) \<Rightarrow>
            [(h, Payload (py ''S'') (py ''E'') (py ''01'')
                   (if n = 1 then Some (py ''S'' @ py ''E'' @ py ''01'') else None))])"
    using dispatch_events by blast
  have "invocations new = []"
    unfolding new(2) b by simp
  then have "invocations (new_events ?s
      (process_message quiet_env ?s (py ''sort_controller'') (py ''E'') (py ''S'') (py ''01''))) = []"
    by (simp add: new(1) new_events_def)
  with a show ?thesis
    by blast
qed

section \<open>Processing of received data\<close>

lemma process_message_frame:
  "process_message e s d mt raw c = s\<lparr>events := events (process_message e s d mt raw c)\<rparr>"
  by (simp add: process_message_def process_message_try_def dispatch_mapped_def
      dispatch_raw_def dispatch_legacy_def report_no_handler_def call_handler_def
      logger_def lookup_handler_def Let_def
      split: option.splits)

lemma process_message_tables [simp]:
  "clients (process_message e s d mt raw c) = clients s"
  "message_buffers (process_message e s d mt raw c) = message_buffers s"
  "device_handlers (process_message e s d mt raw c) = device_handlers s"
  "auto_device_mapping (process_message e s d mt raw c) = auto_device_mapping s"
  by (subst process_message_frame, simp)+

lemma process_message_clients_upd:
  "process_message e (s\<lparr>clients := C\<rparr>) d mt raw c =
     (process_message e s d mt raw c)\<lparr>clients := C\<rparr>"
  by (simp add: process_message_def process_message_try_def dispatch_mapped_def
      dispatch_raw_def dispatch_legacy_def report_no_handler_def call_handler_def
      logger_def lookup_handler_def Let_def
      split: option.splits)

lemma learn_device_absent:
  "map_of (clients s) client_id = None \<Longrightarrow> learn_device s client_id t = s"
  by (simp add: learn_device_def)

lemma learn_device_known:
  "map_of (clients s) client_id = Some info \<Longrightarrow> device_id info = Some d \<Longrightarrow>
   learn_device s client_id t = s"
  by (simp add: learn_device_def)

lemma update_present_keys:
  "map_of al k = Some v \<Longrightarrow> map fst (AList.update k v' al) = map fst al"
  by (induction al) (auto split: if_splits)

lemma learn_device_keys: "map fst (clients (learn_device s client_id t)) = map fst (clients s)"
  by (simp add: learn_device_def logger_def update_present_keys split: option.splits)

lemma device_of_simps [simp]:
  "device_of (logger lv msg s) k = device_of s k"
  "device_of (s\<lparr>message_buffers := b\<rparr>) k = device_of s k"
  "device_of (s\<lparr>events := evs\<rparr>) k = device_of s k"
  "device_of (process_message e s dv mt raw c) k = device_of s k"
  by (simp_all add: device_of_def logger_def)

lemma learn_device_sockets:
  "map (\<lambda>(k, info). socket info) (clients (learn_device s client_id t)) =
     map (\<lambda>(k, info). socket info) (clients s)"
proof -
  have "map (\<lambda>(k, info). socket info) (AList.update client_id (info\<lparr>device_id := x\<rparr>) al) =
      map (\<lambda>(k, info). socket info) al"
    if "map_of al client_id = Some info" for al :: "(pystr, client_info) dict" and info x
    using that by (induction al) (auto split: if_splits)
  then show ?thesis
    by (auto simp: learn_device_def logger_def split: option.splits)
qed

lemma learn_device_device_of:
  "device_of s k = Some d \<Longrightarrow> device_of (learn_device s client_id t) k = Some d"
  by (auto simp: learn_device_def device_of_def logger_def update_conv'
      split: option.splits)

lemma learn_device_other [simp]:
  "message_buffers (learn_device s client_id t) = message_buffers s"
  "device_handlers (learn_device s client_id t) = device_handlers s"
  "auto_device_mapping (learn_device s client_id t) = auto_device_mapping s"
  by (simp_all add: learn_device_def logger_def split: option.splits)

lemma learn_device_events:
  "\<exists>new. events (learn_device s client_id t) = events s @ new \<and> closes new = []"
  by (simp add: learn_device_def logger_def split: option.splits)

lemma handle_message_keys:
  "map fst (clients (handle_message e client_id s m)) = map fst (clients s)"
  by (simp add: handle_message_def logger_def Let_def learn_device_keys split: option.splits)

lemma handle_message_sockets:
  "map (\<lambda>(k, info). socket info) (clients (handle_message e client_id s m)) =
     map (\<lambda>(k, info). socket info) (clients s)"
  by (simp add: handle_message_def logger_def Let_def learn_device_sockets
      split: option.splits)

lemma handle_message_other [simp]:
  "message_buffers (handle_message e client_id s m) = message_buffers s"
  "device_handlers (handle_message e client_id s m) = device_handlers s"
  "auto_device_mapping (handle_message e client_id s m) = auto_device_mapping s"
  by (simp_all add: handle_message_def logger_def Let_def split: option.splits)

lemma handle_message_device_of:
  "device_of s k = Some d \<Longrightarrow> device_of (handle_message e client_id s m) k = Some d"
  by (simp add: handle_message_def Let_def learn_device_device_of split: option.splits)

lemma handle_message_events:
  "\<exists>new. events (handle_message e client_id s m) = events s @ new \<and> closes new = []"
proof (cases "utf8_decode m")
  case None
  then show ?thesis
    by (simp add: handle_message_def logger_def)
next
  case (Some t)
  show ?thesis
  proof (cases "length t < 2")
    case True
    with Some show ?thesis
      by (simp add: handle_message_def logger_def)
  next
    case False
    let ?s1 = "learn_device s client_id [t ! 0]"
    obtain n1 where n1: "events ?s1 = events s @ n1" "closes n1 = []"
      using learn_device_events by blast
    obtain n2 where n2:
      "events (process_message e ?s1 (dict_get DEVICE_ID_MAPPING [t ! 0] [t ! 0]) [t ! 1]
          [t ! 0] (drop 2 t)) = events ?s1 @ n2" "closes n2 = []"
      using dispatch_events by blast
    from Some False n1 n2 show ?thesis
      by (simp add: handle_message_def Let_def)
  qed
qed

lemma handle_message_absent:
  "map_of (clients s) client_id = None \<Longrightarrow> clients (handle_message e client_id s m) = clients s"
  by (simp add: handle_message_def logger_def Let_def learn_device_absent split: option.splits)

lemma handle_message_live:
  assumes "map_of (clients s) client_id = None" and "map_of C client_id = Some info"
    and "device_id info = Some d"
  shows "handle_message e client_id (s\<lparr>clients := C\<rparr>) m =
    (handle_message e client_id s m)\<lparr>clients := C\<rparr>"
proof -
  have "learn_device (s\<lparr>clients := C\<rparr>) client_id t = s\<lparr>clients := C\<rparr>" for t
    using assms by (simp add: learn_device_known)
  moreover have "learn_device s client_id t = s" for t
    using assms by (simp add: learn_device_absent)
  ultimately show ?thesis
    by (simp add: handle_message_def logger_def Let_def process_message_clients_upd
        split: option.splits)
qed

lemma foldl_handle_keys:
  "map fst (clients (foldl (handle_message e client_id) s ms)) = map fst (clients s)"
  by (induction ms arbitrary: s) (simp_all add: handle_message_keys)

lemma foldl_handle_sockets:
  "map (\<lambda>(k, info). socket info) (clients (foldl (handle_message e client_id) s ms)) =
     map (\<lambda>(k, info). socket info) (clients s)"
  by (induction ms arbitrary: s) (simp_all add: handle_message_sockets)

lemma foldl_handle_other [simp]:
  "message_buffers (foldl (handle_message e client_id) s ms) = message_buffers s"
  "device_handlers (foldl (handle_message e client_id) s ms) = device_handlers s"
  by (induction ms arbitrary: s) simp_all

lemma foldl_handle_device_of:
  "device_of s k = Some d \<Longrightarrow> device_of (foldl (handle_message e client_id) s ms) k = Some d"
  by (induction ms arbitrary: s) (simp_all add: handle_message_device_of)

lemma foldl_handle_events:
  "\<exists>new. events (foldl (handle_message e client_id) s ms) = events s @ new \<and> closes new = []"
proof (induction ms arbitrary: s)
  case Nil
  then show ?case by simp
next
  case (Cons m ms)
  obtain n1 where n1: "events (handle_message e client_id s m) = events s @ n1" "closes n1 = []"
    using handle_message_events by blast
  obtain n2 where n2: "events (foldl (handle_message e client_id) (handle_message e client_id s m) ms)
      = events (handle_message e client_id s m) @ n2" "closes n2 = []"
    using Cons.IH by blast
  from n1 n2 show ?case by simp
qed

lemma foldl_handle_absent:
  "map_of (clients s) client_id = None \<Longrightarrow>
   clients (foldl (handle_message e client_id) s ms) = clients s"
  by (induction ms arbitrary: s) (simp_all add: handle_message_absent)

lemma foldl_handle_live:
  assumes "map_of (clients s) client_id = None" and "map_of C client_id = Some info"
    and "device_id info = Some d"
  shows "foldl (handle_message e client_id) (s\<lparr>clients := C\<rparr>) ms =
    (foldl (handle_message e client_id) s ms)\<lparr>clients := C\<rparr>"
  using assms(1)
proof (induction ms arbitrary: s)
  case Nil
  then show ?case by simp
next
  case (Cons m ms)
  have "map_of (clients (handle_message e client_id s m)) client_id = None"
    using Cons.prems by (simp add: handle_message_absent)
  from Cons.IH [OF this] show ?case
    using handle_message_live [OF Cons.prems assms(2,3)] by simp
qed

lemma process_data_unfold:
  "process_data e s client_id data =
     foldl (handle_message e client_id)
       (s\<lparr>message_buffers := fst (frame_chunk (message_buffers s) client_id data)\<rparr>)
       (snd (frame_chunk (message_buffers s) client_id data))"
  by (simp add: process_data_def split_beta)

lemma process_data_device_of:
  "device_of s k = Some d \<Longrightarrow> device_of (process_data e s client_id data) k = Some d"
  by (simp add: process_data_unfold foldl_handle_device_of)

lemma receive_chunk_device_of:
  "device_of s k = Some d \<Longrightarrow> device_of (receive_chunk e s client_id data now) k = Some d"
  using process_data_device_of [of s k d e client_id data]
  by (auto simp: receive_chunk_def Let_def device_of_def update_conv' split: option.splits)

lemma str_of_nat_digit: "n < 10 \<Longrightarrow> str_of_nat n = [48 + n]"
  by (subst str_of_nat.simps) simp

lemma str_of_nat_more:
  "10 \<le> n \<Longrightarrow> str_of_nat n = str_of_nat (n div 10) @ [48 + n mod 10]"
  by (subst str_of_nat.simps) simp

lemma frame_chunk_eval:
  "frame_chunk bufs client_id data =
     (AList.update client_id (spec_residual (buffer_of bufs client_id @ data))
        (AList.update client_id (buffer_of bufs client_id @ data)
           (if \<not> contains bufs client_id then AList.update client_id [] bufs else bufs)),
      spec_messages (buffer_of bufs client_id @ data))"
  by (simp add: frame_chunk_def Let_def extract_messages_spec buffer_of_def contains_def
      update_conv' split: option.splits)

text \<open>
  C3. Once the table holds a device identity for a connection, no read changes it: after
  any sequence of reads, on this connection or on others, with any bytes (so any tags),
  the identity stored for the connection is still the one it had.
\<close>

theorem device_identity_sticky:
  assumes "device_of s client_id = Some d"
  shows "device_of
           (foldl (\<lambda>s' (cid, data, now). receive_chunk e s' cid data now) s reads)
           client_id = Some d"
  using assms
proof (induction reads arbitrary: s)
  case Nil
  then show ?case by simp
next
  case (Cons r reads)
  obtain cid data now where r: "r = (cid, data, now)"
    by (cases r)
  have "device_of (receive_chunk e s cid data now) client_id = Some d"
    using Cons.prems by (rule receive_chunk_device_of)
  from Cons.IH [OF this] show ?case
    by (simp add: r)
qed

text \<open>
  A connection from an address registered for \<open>sort_controller\<close> that sends \<open>XE1\<close>
  and \<open>HE2\<close> keeps that identity; a connection with no registration that sends
  \<open>SE0\<close> has the identity \<open>S\<close> and keeps it when \<open>HE1\<close> and \<open>GE2\<close> follow.
\<close>

theorem device_identity_sticky_witness:
  "device_of
     (accept_connection (init_handler [(py ''192.168.0.21'', py ''sort_controller'')]) 5
        (py ''192.168.0.21'', 50123) 100)
     (py ''192.168.0.21:50123'') = Some (py ''sort_controller'') \<and>
   device_of
     (foldl (\<lambda>s' (cid, data, now). receive_chunk quiet_env s' cid data now)
        (accept_connection (init_handler [(py ''192.168.0.21'', py ''sort_controller'')]) 5
           (py ''192.168.0.21'', 50123) 100)
        [(py ''192.168.0.21:50123'', [88, 69, 49, 10], 101),
         (py ''192.168.0.21:50123'', [72, 69, 50, 10], 102)])
     (py ''192.168.0.21:50123'') = Some (py ''sort_controller'') \<and>
   device_of
     (receive_chunk quiet_env
        (accept_connection (init_handler []) 5 (py ''192.168.0.21'', 50123) 100)
        (py ''192.168.0.21:50123'') [83, 69, 48, 10] 101)
     (py ''192.168.0.21:50123'') = Some (py ''S'') \<and>
   device_of
     (foldl (\<lambda>s' (cid, data, now). receive_chunk quiet_env s' cid data now)
        (receive_chunk quiet_env
           (accept_connection (init_handler []) 5 (py ''192.168.0.21'', 50123) 100)
           (py ''192.168.0.21:50123'') [83, 69, 48, 10] 101)
        [(py ''192.168.0.21:50123'', [72, 69, 49, 10], 102),
         (py ''192.168.0.21:50123'', [71, 69, 50, 10], 103)])
     (py ''192.168.0.21:50123'') = Some (py ''S'')"
proof -
  have h1: "device_of
     (accept_connection (init_handler [(py ''192.168.0.21'', py ''sort_controller'')]) 5
        (py ''192.168.0.21'', 50123) 100)
     (py ''192.168.0.21:50123'') = Some (py ''sort_controller'')"
    by (simp add: device_of_def accept_connection_def init_handler_def logger_def py_def
        str_of_nat_digit str_of_nat_more Let_def)
  have h2: "device_of
     (receive_chunk quiet_env
        (accept_connection (init_handler []) 5 (py ''192.168.0.21'', 50123) 100)
        (py ''192.168.0.21:50123'') [83, 69, 48, 10] 101)
     (py ''192.168.0.21:50123'') = Some (py ''S'')"
    by (simp add: device_of_def accept_connection_def init_handler_def logger_def py_def
        str_of_nat_digit str_of_nat_more Let_def receive_chunk_def process_data_def
        frame_chunk_eval buffer_of_def contains_def spec_messages_def spec_residual_def
        NL_def handle_message_def learn_device_def update_conv')
  show ?thesis
    by (intro conjI h1 h2 device_identity_sticky [OF h1] device_identity_sticky [OF h2])
qed

lemma process_data_events:
  "\<exists>new. events (process_data e s client_id data) = events s @ new \<and> closes new = []"
  using foldl_handle_events
    [of e client_id "s\<lparr>message_buffers := fst (frame_chunk (message_buffers s) client_id data)\<rparr>"
      "snd (frame_chunk (message_buffers s) client_id data)"]
  by (simp add: process_data_unfold)

lemma process_data_connections:
  "map fst (clients (process_data e s client_id data)) = map fst (clients s)"
  "map (\<lambda>(k, info). socket info) (clients (process_data e s client_id data)) =
     map (\<lambda>(k, info). socket info) (clients s)"
  "closes (new_events s (process_data e s client_id data)) = []"
proof -
  show "map fst (clients (process_data e s client_id data)) = map fst (clients s)"
    by (simp add: process_data_unfold foldl_handle_keys)
  show "map (\<lambda>(k, info). socket info) (clients (process_data e s client_id data)) =
     map (\<lambda>(k, info). socket info) (clients s)"
    by (simp add: process_data_unfold foldl_handle_sockets)
  obtain new where "events (process_data e s client_id data) = events s @ new" "closes new = []"
    using process_data_events by blast
  then show "closes (new_events s (process_data e s client_id data)) = []"
    by (simp add: new_events_def)
qed

text \<open>
  C8. When a line framed from a chunk decodes to fewer than two characters, the loop of
  \<open>_process_data\<close> does for it nothing but log one warning: the messages before it are
  processed as usual, then the warning is logged, then the messages after it are
  processed as usual. The chunk leaves every connection in the table with its socket,
  and no socket is closed.
\<close>

theorem short_message_dropped:
  assumes "frame_chunk (message_buffers s) client_id data = (bufs, pre @ m # post)"
    and "utf8_decode m = Some t" and "length t < 2"
  shows "process_data e s client_id data =
           foldl (handle_message e client_id)
             (logger WARNING (InvalidFormat t)
                (foldl (handle_message e client_id) (s\<lparr>message_buffers := bufs\<rparr>) pre))
             post \<and>
         map fst (clients (process_data e s client_id data)) = map fst (clients s) \<and>
         map (\<lambda>(k, info). socket info) (clients (process_data e s client_id data)) =
           map (\<lambda>(k, info). socket info) (clients s) \<and>
         closes (new_events s (process_data e s client_id data)) = []"
proof -
  have "handle_message e client_id s' m = logger WARNING (InvalidFormat t) s'" for s'
    using assms(2,3) by (simp add: handle_message_def)
  then have "process_data e s client_id data =
      foldl (handle_message e client_id)
        (logger WARNING (InvalidFormat t)
           (foldl (handle_message e client_id) (s\<lparr>message_buffers := bufs\<rparr>) pre))
        post"
    using assms(1) by (simp add: process_data_def)
  then show ?thesis
    by (intro conjI process_data_connections)
qed

theorem short_message_dropped_witness:
  "frame_chunk (message_buffers one_handler) (py ''192.168.0.21:50123'')
     [83, 10, 83, 69, 49, 10] =
     ([(py ''192.168.0.21:50123'', [])], [] @ [83] # [[83, 69, 49]]) \<and>
   utf8_decode [83] = Some [83] \<and>
   length [83 :: nat] < 2 \<and>
   new_events one_handler
     (process_data quiet_env one_handler (py ''192.168.0.21:50123'') [83, 10, 83, 69, 49, 10]) =
     [Log WARNING (InvalidFormat (py ''S'')),
      Log INFO (DeviceRegistered (py ''S'') (py ''192.168.0.21:50123'')),
      Log DEBUG (MessageReceived (py ''S'') (py ''E'') (py ''1'') 1),
      Invoke 1 (Payload (py ''S'') (py ''E'') (py ''1'') (Some (py ''SE1'')))] \<and>
   map fst (clients
     (process_data quiet_env one_handler (py ''192.168.0.21:50123'') [83, 10, 83, 69, 49, 10])) =
     [py ''192.168.0.21:50123'']"
proof -
  have h1: "frame_chunk (message_buffers one_handler) (py ''192.168.0.21:50123'')
     [83, 10, 83, 69, 49, 10] =
     ([(py ''192.168.0.21:50123'', [])], [] @ [83] # [[83, 69, 49]])"
    by (simp add: one_handler_def register_device_handler_def accept_connection_def
        init_handler_def logger_def py_def str_of_nat_digit str_of_nat_more Let_def
        frame_chunk_eval buffer_of_def contains_def spec_messages_def spec_residual_def
        NL_def)
  have h2: "utf8_decode [83] = Some [83]"
    by simp
  have h3: "length [83 :: nat] < 2"
    by simp
  note inst = short_message_dropped [OF h1 h2 h3, of quiet_env]
  have ev: "new_events one_handler
     (process_data quiet_env one_handler (py ''192.168.0.21:50123'') [83, 10, 83, 69, 49, 10]) =
     [Log WARNING (InvalidFormat (py ''S'')),
      Log INFO (DeviceRegistered (py ''S'') (py ''192.168.0.21:50123'')),
      Log DEBUG (MessageReceived (py ''S'') (py ''E'') (py ''1'') 1),
      Invoke 1 (Payload (py ''S'') (py ''E'') (py ''1'') (Some (py ''SE1'')))]"
    unfolding inst [THEN conjunct1]
    by (simp add: one_handler_def register_device_handler_def accept_connection_def
        init_handler_def logger_def py_def str_of_nat_digit str_of_nat_more Let_def
        handle_message_def learn_device_def update_conv' dict_get_def
        DEVICE_ID_MAPPING_def contains_def new_events_def quiet_env_def
        process_message_def process_message_try_def dispatch_mapped_def lookup_handler_def
        call_handler_def)
  have keys: "map fst (clients
     (process_data quiet_env one_handler (py ''192.168.0.21:50123'') [83, 10, 83, 69, 49, 10])) =
     [py ''192.168.0.21:50123'']"
    unfolding inst [THEN conjunct2, THEN conjunct1]
    by (simp add: one_handler_def register_device_handler_def accept_connection_def
        init_handler_def logger_def py_def str_of_nat_digit str_of_nat_more Let_def)
  from h1 h2 h3 ev keys show ?thesis
    by blast
qed

section \<open>Calls made for the lines of a chunk\<close>

lemma first_match_handlers:
  "device_handlers s = device_handlers s' \<Longrightarrow> first_match s n xs = first_match s' n xs"
  by (induction xs arbitrary: n) (auto simp: lookup_handler_def split: option.splits)

lemma expected_calls_handlers:
  "device_handlers s = device_handlers s' \<Longrightarrow> expected_calls s m = expected_calls s' m"
  by (simp add: expected_calls_def Let_def first_match_handlers [of s s']
      split: option.splits)

lemma handle_message_calls:
  "\<exists>new. events (handle_message e client_id s m) = events s @ new \<and>
     invocations new = expected_calls s m"
proof (cases "utf8_decode m")
  case None
  then show ?thesis
    by (simp add: handle_message_def logger_def expected_calls_def)
next
  case (Some t)
  show ?thesis
  proof (cases "length t < 2")
    case True
    with Some show ?thesis
      by (simp add: handle_message_def logger_def expected_calls_def)
  next
    case False
    let ?s1 = "learn_device s client_id [t ! 0]"
    let ?canonical = "dict_get DEVICE_ID_MAPPING [t ! 0] [t ! 0]"
    have fm: "first_match ?s1 n xs = first_match s n xs" for n xs
      by (rule first_match_handlers) simp
    have "\<exists>n1. events ?s1 = events s @ n1 \<and> invocations n1 = []"
      by (simp add: learn_device_def logger_def split: option.splits)
    then obtain n1 where n1: "events ?s1 = events s @ n1" "invocations n1 = []"
      by blast
    obtain n2 where n2:
      "events (process_message e ?s1 ?canonical [t ! 1] [t ! 0] (drop 2 t)) = events ?s1 @ n2"
      "invocations n2 =
         (case first_match ?s1 1 (spec_strategies amended_legacy_alias ?canonical [t ! 0] [t ! 1]) of
            None \<Rightarrow> []
          | Some (n, h) \<Rightarrow>
              [(h, Payload [t ! 0] [t ! 1] (drop 2 t)
                     (if n = 1 then Some ([t ! 0] @ [t ! 1] @ drop 2 t) else None))])"
      using dispatch_events by blast
    from Some False n1 n2 show ?thesis
      by (simp add: handle_message_def Let_def expected_calls_def fm split: option.splits)
  qed
qed

lemma foldl_handle_calls:
  "\<exists>new. events (foldl (handle_message e client_id) s ms) = events s @ new \<and>
     invocations new = concat (map (expected_calls s) ms)"
proof (induction ms arbitrary: s)
  case Nil
  then show ?case by simp
next
  case (Cons m ms)
  let ?s1 = "handle_message e client_id s m"
  obtain n1 where n1: "events ?s1 = events s @ n1" "invocations n1 = expected_calls s m"
    using handle_message_calls by blast
  obtain n2 where n2: "events (foldl (handle_message e client_id) ?s1 ms) = events ?s1 @ n2"
      "invocations n2 = concat (map (expected_calls ?s1) ms)"
    using Cons.IH by blast
  have "expected_calls ?s1 = expected_calls s"
    by (rule ext, rule expected_calls_handlers) simp
  with n1 n2 show ?case
    by simp
qed

lemma process_data_calls:
  "invocations (new_events s (process_data e s client_id data)) =
     concat (map (expected_calls s)
       (spec_messages (buffer_of (message_buffers s) client_id @ data)))"
proof -
  let ?s0 = "s\<lparr>message_buffers := fst (frame_chunk (message_buffers s) client_id data)\<rparr>"
  obtain new where new:
    "events (foldl (handle_message e client_id) ?s0
        (snd (frame_chunk (message_buffers s) client_id data))) = events ?s0 @ new"
    "invocations new =
       concat (map (expected_calls ?s0) (snd (frame_chunk (message_buffers s) client_id data)))"
    using foldl_handle_calls by blast
  have "expected_calls ?s0 = expected_calls s"
    by (rule ext, rule expected_calls_handlers) simp
  with new show ?thesis
    by (simp add: process_data_unfold new_events_def frame_chunk_spec)
qed

text \<open>The identity of a live connection after the lines of a chunk.\<close>

lemma handle_message_learn:
  assumes "map_of (clients s) client_id = Some info"
  shows "map_of (clients (handle_message e client_id s m)) client_id =
    Some (info\<lparr>device_id :=
      (case device_id info of Some d \<Rightarrow> Some d | None \<Rightarrow> first_tag [m])\<rparr>)"
  using assms
  by (cases "device_id info")
    (auto simp: handle_message_def logger_def Let_def learn_device_def update_conv'
      split: option.splits)

lemma foldl_handle_learn:
  assumes "map_of (clients s) client_id = Some info"
  shows "map_of (clients (foldl (handle_message e client_id) s ms)) client_id =
    Some (info\<lparr>device_id :=
      (case device_id info of Some d \<Rightarrow> Some d | None \<Rightarrow> first_tag ms)\<rparr>)"
  using assms
proof (induction ms arbitrary: s info)
  case Nil
  then show ?case
    by (cases "device_id info") simp_all
next
  case (Cons m ms)
  note step = handle_message_learn [OF Cons.prems, of e m]
  show ?case
    using Cons.IH [OF step]
    by (cases "device_id info") (auto split: option.splits)
qed

text \<open>
  C10. For a connection id that is not in the table, \<open>_process_data\<close> leaves the table
  as it is and still frames the chunk: afterwards a buffer is stored under the id, and it
  holds what follows the last newline of the earlier buffer (empty when the id had none)
  followed by the chunk. Every framed line goes through the loop, and the handlers called
  are, line by line, those of the first matching strategy. The same chunk for a live
  connection, whatever its entry, leaves the same buffers and handlers and calls the same
  handlers with the same arguments in the same order; the live connection in addition
  has its identity learnt from the first line of two characters or more when it had none.
  When the live connection already has an identity the two runs give the same state,
  events included, apart from the table entry.
\<close>

theorem absent_client_still_processed:
  assumes "map_of (clients s) client_id = None"
  shows "clients (process_data e s client_id data) = clients s \<and>
         map_of (message_buffers (process_data e s client_id data)) client_id =
           Some (spec_residual (buffer_of (message_buffers s) client_id @ data)) \<and>
         process_data e s client_id data =
           foldl (handle_message e client_id)
             (s\<lparr>message_buffers := fst (frame_chunk (message_buffers s) client_id data)\<rparr>)
             (spec_messages (buffer_of (message_buffers s) client_id @ data)) \<and>
         invocations (new_events s (process_data e s client_id data)) =
           concat (map (expected_calls s)
             (spec_messages (buffer_of (message_buffers s) client_id @ data))) \<and>
         (\<forall>info.
            message_buffers
              (process_data e (s\<lparr>clients := AList.update client_id info (clients s)\<rparr>)
                 client_id data) =
              message_buffers (process_data e s client_id data) \<and>
            device_handlers
              (process_data e (s\<lparr>clients := AList.update client_id info (clients s)\<rparr>)
                 client_id data) =
              device_handlers (process_data e s client_id data) \<and>
            invocations
              (new_events (s\<lparr>clients := AList.update client_id info (clients s)\<rparr>)
                 (process_data e (s\<lparr>clients := AList.update client_id info (clients s)\<rparr>)
                    client_id data)) =
              invocations (new_events s (process_data e s client_id data)) \<and>
            device_of
              (process_data e (s\<lparr>clients := AList.update client_id info (clients s)\<rparr>)
                 client_id data) client_id =
              (case device_id info of
                 Some d \<Rightarrow> Some d
               | None \<Rightarrow>
                   first_tag (spec_messages (buffer_of (message_buffers s) client_id @ data))) \<and>
            (device_id info \<noteq> None \<longrightarrow>
               process_data e (s\<lparr>clients := AList.update client_id info (clients s)\<rparr>)
                 client_id data =
               (process_data e s client_id data)
                 \<lparr>clients := AList.update client_id info (clients s)\<rparr>))"
proof (intro conjI allI impI)
  let ?msgs = "spec_messages (buffer_of (message_buffers s) client_id @ data)"
  show "clients (process_data e s client_id data) = clients s"
    using assms(1) by (simp add: process_data_unfold foldl_handle_absent)
  show "map_of (message_buffers (process_data e s client_id data)) client_id =
      Some (spec_residual (buffer_of (message_buffers s) client_id @ data))"
    by (simp add: process_data_unfold frame_chunk_eval update_conv')
  show "process_data e s client_id data =
      foldl (handle_message e client_id)
        (s\<lparr>message_buffers := fst (frame_chunk (message_buffers s) client_id data)\<rparr>) ?msgs"
    by (simp add: process_data_unfold frame_chunk_spec)
  show calls: "invocations (new_events s (process_data e s client_id data)) =
      concat (map (expected_calls s) ?msgs)"
    by (rule process_data_calls)
  fix info :: client_info
  let ?live = "s\<lparr>clients := AList.update client_id info (clients s)\<rparr>"
  have live: "map_of (AList.update client_id info (clients s)) client_id = Some info"
    by (simp add: update_conv')
  show "message_buffers (process_data e ?live client_id data) =
      message_buffers (process_data e s client_id data)"
    by (simp add: process_data_unfold)
  show "device_handlers (process_data e ?live client_id data) =
      device_handlers (process_data e s client_id data)"
    by (simp add: process_data_unfold)
  have "expected_calls ?live = expected_calls s"
    by (rule ext, rule expected_calls_handlers) simp
  then show "invocations (new_events ?live (process_data e ?live client_id data)) =
      invocations (new_events s (process_data e s client_id data))"
    by (simp add: calls process_data_calls)
  have "map_of (clients (foldl (handle_message e client_id)
        (?live\<lparr>message_buffers := b\<rparr>) ms)) client_id =
      Some (info\<lparr>device_id :=
        (case device_id info of Some d \<Rightarrow> Some d | None \<Rightarrow> first_tag ms)\<rparr>)" for b ms
    by (rule foldl_handle_learn) (simp add: live)
  then show "device_of (process_data e ?live client_id data) client_id =
      (case device_id info of Some d \<Rightarrow> Some d | None \<Rightarrow> first_tag ?msgs)"
    by (simp add: device_of_def process_data_unfold frame_chunk_spec)
next
  fix info :: client_info
  assume known: "device_id info \<noteq> None"
  then obtain d where d: "device_id info = Some d"
    by blast
  have live: "map_of (AList.update client_id info (clients s)) client_id = Some info"
    by (simp add: update_conv')
  have "foldl (handle_message e client_id)
      (s\<lparr>clients := AList.update client_id info (clients s), message_buffers := b\<rparr>) ms =
      (foldl (handle_message e client_id) (s\<lparr>message_buffers := b\<rparr>) ms)
        \<lparr>clients := AList.update client_id info (clients s)\<rparr>" for b ms
  proof -
    have eq: "s\<lparr>clients := AList.update client_id info (clients s), message_buffers := b\<rparr> =
        (s\<lparr>message_buffers := b\<rparr>)\<lparr>clients := AList.update client_id info (clients s)\<rparr>"
      by simp
    have absent: "map_of (clients (s\<lparr>message_buffers := b\<rparr>)) client_id = None"
      using assms(1) by simp
    show ?thesis
      by (subst eq) (rule foldl_handle_live [OF absent live d])
  qed
  then show "process_data e (s\<lparr>clients := AList.update client_id info (clients s)\<rparr>)
      client_id data =
      (process_data e s client_id data)\<lparr>clients := AList.update client_id info (clients s)\<rparr>"
    by (simp add: process_data_unfold)
qed

text \<open>
  After the eviction of \<open>192.168.0.21:50123\<close> the chunk \<open>SE1\nH\<close> for that id is
  still dispatched to the handler, and \<open>H\<close> is kept in a new buffer. The same chunk for
  a live connection of that id with no identity yet calls the same handler, and the
  connection gets the identity \<open>S\<close>.
\<close>

theorem absent_client_still_processed_witness:
  "map_of (clients (remove_client quiet_env one_handler (py ''192.168.0.21:50123'')))
     (py ''192.168.0.21:50123'') = None \<and>
   message_buffers (remove_client quiet_env one_handler (py ''192.168.0.21:50123'')) = [] \<and>
   clients (process_data quiet_env
       (remove_client quiet_env one_handler (py ''192.168.0.21:50123''))
       (py ''192.168.0.21:50123'') [83, 69, 49, 10, 72]) = [] \<and>
   map_of (message_buffers (process_data quiet_env
       (remove_client quiet_env one_handler (py ''192.168.0.21:50123''))
       (py ''192.168.0.21:50123'') [83, 69, 49, 10, 72])) (py ''192.168.0.21:50123'') =
     Some [72] \<and>
   invocations (new_events (remove_client quiet_env one_handler (py ''192.168.0.21:50123''))
     (process_data quiet_env
       (remove_client quiet_env one_handler (py ''192.168.0.21:50123''))
       (py ''192.168.0.21:50123'') [83, 69, 49, 10, 72])) =
     [(1, Payload (py ''S'') (py ''E'') (py ''1'') (Some (py ''SE1'')))] \<and>
   invocations
     (new_events
        ((remove_client quiet_env one_handler (py ''192.168.0.21:50123''))
           \<lparr>clients := AList.update (py ''192.168.0.21:50123'')
              \<lparr>socket = 9, address = (py ''192.168.0.21'', 50123), device_id = None,
               last_activity = 300\<rparr>
              (clients (remove_client quiet_env one_handler (py ''192.168.0.21:50123'')))\<rparr>)
        (process_data quiet_env
           ((remove_client quiet_env one_handler (py ''192.168.0.21:50123''))
              \<lparr>clients := AList.update (py ''192.168.0.21:50123'')
                 \<lparr>socket = 9, address = (py ''192.168.0.21'', 50123), device_id = None,
                  last_activity = 300\<rparr>
                 (clients (remove_client quiet_env one_handler (py ''192.168.0.21:50123'')))\<rparr>)
           (py ''192.168.0.21:50123'') [83, 69, 49, 10, 72])) =
     [(1, Payload (py ''S'') (py ''E'') (py ''1'') (Some (py ''SE1'')))] \<and>
   device_of
     (process_data quiet_env
        ((remove_client quiet_env one_handler (py ''192.168.0.21:50123''))
           \<lparr>clients := AList.update (py ''192.168.0.21:50123'')
              \<lparr>socket = 9, address = (py ''192.168.0.21'', 50123), device_id = None,
               last_activity = 300\<rparr>
              (clients (remove_client quiet_env one_handler (py ''192.168.0.21:50123'')))\<rparr>)
        (py ''192.168.0.21:50123'') [83, 69, 49, 10, 72])
     (py ''192.168.0.21:50123'') = Some (py ''S'')"
proof -
  let ?s = "remove_client quiet_env one_handler (py ''192.168.0.21:50123'')"
  let ?info = "\<lparr>socket = 9, address = (py ''192.168.0.21'', 50123), device_id = None,
      last_activity = 300\<rparr>"
  let ?data = "[83, 69, 49, 10, 72] :: bytes"
  have s: "?s =
      \<lparr>clients = [], message_buffers = [],
       device_handlers = [(py ''sort_controller'', [(py ''E'', 1)])],
       auto_device_mapping = [],
       events = [Log INFO HandlerInitialized, Log INFO (NewClient (py ''192.168.0.21:50123'')),
         Log DEBUG (HandlerRegistered (py ''sort_controller'') (py ''E'')), SockClose 5]\<rparr>"
    by (simp add: one_handler_def register_device_handler_def accept_connection_def
        init_handler_def logger_def py_def str_of_nat_digit str_of_nat_more Let_def
        remove_client_def quiet_env_def contains_def dict_get_def)
  have h1: "map_of (clients ?s) (py ''192.168.0.21:50123'') = None"
    by (simp add: s)
  note inst = absent_client_still_processed [OF h1, of quiet_env ?data]
  have msgs: "spec_messages (buffer_of (message_buffers ?s) (py ''192.168.0.21:50123'') @ ?data) =
      [[83, 69, 49]]"
    by (simp add: s buffer_of_def spec_messages_def NL_def)
  have calls: "expected_calls ?s [83, 69, 49] =
      [(1, Payload (py ''S'') (py ''E'') (py ''1'') (Some (py ''SE1'')))]"
    apply (simp only: s)
    apply (simp add: expected_calls_def spec_strategies_def amended_legacy_alias_def
        lookup_handler_def dict_get_def DEVICE_ID_MAPPING_def py_def Let_def)
    done
  have c1: "clients (process_data quiet_env ?s (py ''192.168.0.21:50123'') ?data) = []"
    using inst [THEN conjunct1] by (simp add: s)
  have c2: "map_of (message_buffers (process_data quiet_env ?s (py ''192.168.0.21:50123'')
      ?data)) (py ''192.168.0.21:50123'') = Some [72]"
    using inst [THEN conjunct2, THEN conjunct1]
    by (simp add: s buffer_of_def spec_residual_def NL_def)
  have c3: "invocations (new_events ?s
      (process_data quiet_env ?s (py ''192.168.0.21:50123'') ?data)) =
      [(1, Payload (py ''S'') (py ''E'') (py ''1'') (Some (py ''SE1'')))]"
    unfolding inst [THEN conjunct2, THEN conjunct2, THEN conjunct2, THEN conjunct1] msgs
    by (simp add: calls)
  note live = inst [THEN conjunct2, THEN conjunct2, THEN conjunct2, THEN conjunct2,
      THEN spec, of ?info]
  have c4: "invocations
     (new_events (?s\<lparr>clients := AList.update (py ''192.168.0.21:50123'') ?info (clients ?s)\<rparr>)
        (process_data quiet_env
           (?s\<lparr>clients := AList.update (py ''192.168.0.21:50123'') ?info (clients ?s)\<rparr>)
           (py ''192.168.0.21:50123'') ?data)) =
     [(1, Payload (py ''S'') (py ''E'') (py ''1'') (Some (py ''SE1'')))]"
    unfolding live [THEN conjunct2, THEN conjunct2, THEN conjunct1]
    by (rule c3)
  have c5: "device_of
     (process_data quiet_env
        (?s\<lparr>clients := AList.update (py ''192.168.0.21:50123'') ?info (clients ?s)\<rparr>)
        (py ''192.168.0.21:50123'') ?data)
     (py ''192.168.0.21:50123'') = Some (py ''S'')"
    unfolding live [THEN conjunct2, THEN conjunct2, THEN conjunct2, THEN conjunct1] msgs
    by (simp add: py_def)
  have c0: "message_buffers ?s = []"
    by (simp add: s)
  from h1 c0 c1 c2 c3 c4 c5 show ?thesis
    by blast
qed

section \<open>Sending\<close>

lemma utf8_encode_append:
  "utf8_encode (xs @ ys) =
     (case utf8_encode xs of
        None \<Rightarrow> None
      | Some a \<Rightarrow> map_option ((@) a) (utf8_encode ys))"
proof (induction xs)
  case Nil
  show ?case
    by (cases "utf8_encode ys") simp_all
next
  case (Cons x xs)
  then show ?case
    by (cases "encode_char x"; cases "utf8_encode xs"; cases "utf8_encode ys") simp_all
qed

lemma utf8_encode_newline: "utf8_encode [10] = Some [NL]"
  by (simp add: encode_char_def NL_def)

lemma find_client_in_set:
  "find_client al dev_id = Some client_id \<Longrightarrow>
   \<exists>info. (client_id, info) \<in> set al \<and> device_id info = Some dev_id"
  by (induction al) (auto split: if_splits)

lemma find_client_Some:
  assumes "distinct (map fst al)" and "find_client al dev_id = Some client_id"
  shows "\<exists>info. map_of al client_id = Some info \<and> device_id info = Some dev_id"
proof -
  obtain info where "(client_id, info) \<in> set al" "device_id info = Some dev_id"
    using find_client_in_set [OF assms(2)] by blast
  with assms(1) show ?thesis
    by (auto simp: map_of_eq_Some_iff)
qed

lemma find_client_None:
  "\<forall>p \<in> set al. device_id (snd p) \<noteq> Some dev_id \<Longrightarrow> find_client al dev_id = None"
  by (induction al) auto

lemma remove_client_events:
  "\<exists>new. events (remove_client e s client_id) = events s @ new"
  by (simp add: remove_client_def logger_def Let_def split: option.splits)

lemma endswith_newline_append [simp]: "endswith_newline (command @ [10])"
  by (simp add: endswith_newline_def)

text \<open>
  C7. Let the first connection of the table whose identity is the device id have a
  non-empty connection id (ids are \<open>host:port\<close>), and let the command, with a newline
  appended unless it ends with one, be encodable as UTF-8. Then \<open>send_message\<close> calls
  \<open>sendall\<close> on that connection's socket with exactly these bytes: the encoded command
  when it already ends with a newline, the encoded command followed by one newline byte
  otherwise; in both cases the bytes end with a newline. When \<open>sendall\<close> returns, the
  activity time of the connection is set to the current time, the success is logged and
  the result is \<open>True\<close>. A command and the same command followed by a newline are sent
  in the same way, whatever the state.
\<close>

theorem send_message_one_newline:
  assumes "find_client_by_device s dev_id = Some client_id" and "client_id \<noteq> []"
    and "map_of (clients s) client_id = Some info"
    and "utf8_encode (if endswith_newline command then command else command @ [10]) = Some data"
  shows "utf8_encode command = Some (if endswith_newline command then data else butlast data) \<and>
         last data = NL \<and>
         take (Suc (length (events s)))
           (events (fst (send_message e s dev_id command now))) =
           events s @ [SockSendAll (socket info) data] \<and>
         (if sendall_raises e (events s) (socket info) data
          then snd (send_message e s dev_id command now) = False
          else send_message e s dev_id command now =
            (s\<lparr>clients := AList.update client_id (info\<lparr>last_activity := now\<rparr>) (clients s),
               events := events s @
                 [SockSendAll (socket info) data,
                  Log INFO (SendSuccess dev_id
                    (strip (if endswith_newline command then command else command @ [10])))]\<rparr>,
             True)) \<and>
         send_message e s dev_id command now =
           send_message e s dev_id
             (if endswith_newline command then command else command @ [10]) now"
proof (intro conjI)
  let ?cmd = "if endswith_newline command then command else command @ [10]"
  show enc: "utf8_encode command = Some (if endswith_newline command then data else butlast data)"
  proof (cases "endswith_newline command")
    case True
    with assms(4) show ?thesis by simp
  next
    case False
    with assms(4) show ?thesis
      by (auto simp: utf8_encode_append encode_char_def split: option.splits)
  qed
  show "last data = NL"
  proof (cases "endswith_newline command")
    case True
    then obtain c where c: "command = c @ [10]"
      by (metis append_butlast_last_id endswith_newline_def)
    with assms(4) True show ?thesis
      by (auto simp: utf8_encode_append encode_char_def NL_def split: option.splits)
  next
    case False
    with assms(4) show ?thesis
      by (auto simp: utf8_encode_append encode_char_def NL_def split: option.splits)
  qed
  have tr: "send_try e s client_id dev_id command now =
      (if sendall_raises e (events s) (socket info) data
       then Inl (s\<lparr>events := events s @ [SockSendAll (socket info) data]\<rparr>)
       else Inr
         (s\<lparr>clients := AList.update client_id (info\<lparr>last_activity := now\<rparr>) (clients s),
            events := events s @
              [SockSendAll (socket info) data, Log INFO (SendSuccess dev_id (strip ?cmd))]\<rparr>,
          True))"
    using assms(3,4)
    by (cases "endswith_newline command") (simp_all add: send_try_def Let_def logger_def)
  have msg: "send_message e s dev_id command now =
      (case send_try e s client_id dev_id command now of
         Inr r \<Rightarrow> r
       | Inl s' \<Rightarrow> (remove_client e (logger ERROR (SendError dev_id) s') client_id, False))"
    using assms(1,2) by (simp add: send_message_def)
  show "take (Suc (length (events s))) (events (fst (send_message e s dev_id command now))) =
      events s @ [SockSendAll (socket info) data]"
  proof (cases "sendall_raises e (events s) (socket info) data")
    case True
    obtain new where "events (remove_client e
        (logger ERROR (SendError dev_id) (s\<lparr>events := events s @ [SockSendAll (socket info) data]\<rparr>))
        client_id) =
        events (logger ERROR (SendError dev_id)
          (s\<lparr>events := events s @ [SockSendAll (socket info) data]\<rparr>)) @ new"
      using remove_client_events by blast
    with True show ?thesis
      by (simp add: msg tr logger_def)
  next
    case False
    then show ?thesis
      by (simp add: msg tr)
  qed
  show "if sendall_raises e (events s) (socket info) data
      then snd (send_message e s dev_id command now) = False
      else send_message e s dev_id command now =
        (s\<lparr>clients := AList.update client_id (info\<lparr>last_activity := now\<rparr>) (clients s),
           events := events s @
             [SockSendAll (socket info) data, Log INFO (SendSuccess dev_id (strip ?cmd))]\<rparr>,
         True)"
    by (simp add: msg tr)
  have "send_try e s cid dev_id ?cmd now = send_try e s cid dev_id command now" for cid
    by (simp add: send_try_def)
  then show "send_message e s dev_id command now = send_message e s dev_id ?cmd now"
    by (cases "endswith_newline command")
      (simp_all add: send_message_def split: option.splits)
qed

lemma sorter_connected_eval:
  "sorter_connected =
     \<lparr>clients = [(py ''192.168.0.21:50123'',
         \<lparr>socket = 5, address = (py ''192.168.0.21'', 50123),
          device_id = Some (py ''sort_controller''), last_activity = 100\<rparr>)],
      message_buffers = [(py ''192.168.0.21:50123'', [])],
      device_handlers = [],
      auto_device_mapping = [(py ''192.168.0.21'', py ''sort_controller'')],
      events = [Log INFO HandlerInitialized, Log INFO (NewClient (py ''192.168.0.21:50123'')),
        Log INFO (AutoDeviceRegistered (py ''sort_controller'') (py ''192.168.0.21:50123''))]\<rparr>"
  by (simp add: sorter_connected_def accept_connection_def init_handler_def logger_def py_def
      str_of_nat_digit str_of_nat_more Let_def)

text \<open>
  \<open>CMD\<close> sent to the connected \<open>sort_controller\<close>: the bytes \<open>CMD\n\<close> go to its
  socket, the activity time becomes the current time, the result is \<open>True\<close>; and
  \<open>CMD\n\<close> is sent in the same way.
\<close>

theorem send_message_one_newline_witness:
  "find_client_by_device sorter_connected (py ''sort_controller'') =
     Some (py ''192.168.0.21:50123'') \<and>
   py ''192.168.0.21:50123'' \<noteq> [] \<and>
   utf8_encode (py ''CMD'' @ [10]) = Some [67, 77, 68, 10] \<and>
   send_message quiet_env sorter_connected (py ''sort_controller'') (py ''CMD'') 200 =
     (sorter_connected
        \<lparr>clients := [(py ''192.168.0.21:50123'',
            \<lparr>socket = 5, address = (py ''192.168.0.21'', 50123),
             device_id = Some (py ''sort_controller''), last_activity = 200\<rparr>)],
         events := events sorter_connected @
           [SockSendAll 5 [67, 77, 68, 10],
            Log INFO (SendSuccess (py ''sort_controller'') (py ''CMD''))]\<rparr>,
      True) \<and>
   send_message quiet_env sorter_connected (py ''sort_controller'') (py ''CMD'') 200 =
     send_message quiet_env sorter_connected (py ''sort_controller'') (py ''CMD'' @ [10]) 200"
proof -
  let ?info = "\<lparr>socket = 5, address = (py ''192.168.0.21'', 50123),
      device_id = Some (py ''sort_controller''), last_activity = 100\<rparr>"
  have h1: "find_client_by_device sorter_connected (py ''sort_controller'') =
      Some (py ''192.168.0.21:50123'')"
    by (simp add: find_client_by_device_def sorter_connected_eval)
  have h2: "py ''192.168.0.21:50123'' \<noteq> []"
    by (simp add: py_def)
  have h3: "map_of (clients sorter_connected) (py ''192.168.0.21:50123'') = Some ?info"
    by (simp add: sorter_connected_eval)
  have nl: "\<not> endswith_newline (py ''CMD'')"
    by (simp add: endswith_newline_def py_def)
  have h4: "utf8_encode (if endswith_newline (py ''CMD'') then py ''CMD''
      else py ''CMD'' @ [10]) = Some [67, 77, 68, 10]"
    by (simp add: nl) (simp add: py_def encode_char_def)
  have enc: "utf8_encode (py ''CMD'' @ [10]) = Some [67, 77, 68, 10]"
    using h4 by (simp add: nl)
  note inst = send_message_one_newline [OF h1 h2 h3 h4, of quiet_env 200]
  have strip: "strip (py ''CMD'' @ [10]) = py ''CMD''"
    by (simp add: strip_def py_def is_space_def)
  have quiet: "\<not> sendall_raises quiet_env evs sk data" for evs sk data
    by (simp add: quiet_env_def)
  have r: "send_message quiet_env sorter_connected (py ''sort_controller'') (py ''CMD'') 200 =
     (sorter_connected
        \<lparr>clients := [(py ''192.168.0.21:50123'',
            \<lparr>socket = 5, address = (py ''192.168.0.21'', 50123),
             device_id = Some (py ''sort_controller''), last_activity = 200\<rparr>)],
         events := events sorter_connected @
           [SockSendAll 5 [67, 77, 68, 10],
            Log INFO (SendSuccess (py ''sort_controller'') (py ''CMD''))]\<rparr>,
      True)"
    using inst [THEN conjunct2, THEN conjunct2, THEN conjunct2, THEN conjunct1]
    by (simp add: quiet nl strip) (simp add: sorter_connected_eval)
  have same: "send_message quiet_env sorter_connected (py ''sort_controller'') (py ''CMD'') 200 =
     send_message quiet_env sorter_connected (py ''sort_controller'') (py ''CMD'' @ [10]) 200"
    using inst [THEN conjunct2, THEN conjunct2, THEN conjunct2, THEN conjunct2]
    by (simp add: nl)
  from h1 h2 enc r same show ?thesis
    by blast
qed

text \<open>
  A command that is a lone surrogate cannot be encoded: \<open>encode\<close> raises inside the
  \<open>try\<close> block, nothing is sent, the connection is evicted and the result is
  \<open>False\<close>.
\<close>

theorem send_message_unencodable_counterexample:
  "find_client_by_device sorter_connected (py ''sort_controller'') =
     Some (py ''192.168.0.21:50123'') \<and>
   send_message quiet_env sorter_connected (py ''sort_controller'') [0xD800] 200 =
     (sorter_connected
        \<lparr>clients := [], message_buffers := [],
         events := events sorter_connected @
           [Log ERROR (SendError (py ''sort_controller'')), SockClose 5,
            Log INFO (DeviceDisconnected (py ''sort_controller''))]\<rparr>,
      False) \<and>
   sends (new_events sorter_connected
     (fst (send_message quiet_env sorter_connected (py ''sort_controller'') [0xD800] 200))) = []"
proof -
  have h1: "find_client_by_device sorter_connected (py ''sort_controller'') =
      Some (py ''192.168.0.21:50123'')"
    by (simp add: find_client_by_device_def sorter_connected_eval)
  have r: "send_message quiet_env sorter_connected (py ''sort_controller'') [0xD800] 200 =
     (sorter_connected
        \<lparr>clients := [], message_buffers := [],
         events := events sorter_connected @
           [Log ERROR (SendError (py ''sort_controller'')), SockClose 5,
            Log INFO (DeviceDisconnected (py ''sort_controller''))]\<rparr>,
      False)"
    apply (simp add: send_message_def h1)
    apply (simp add: sorter_connected_eval)
    apply (simp add: send_try_def endswith_newline_def encode_char_def py_def
        remove_client_def logger_def quiet_env_def contains_def Let_def)
    done
  have "sends (new_events sorter_connected
     (fst (send_message quiet_env sorter_connected (py ''sort_controller'') [0xD800] 200))) = []"
    by (simp add: r new_events_def sends_def)
  with h1 r show ?thesis
    by blast
qed

lemma reverse_mapping_eval:
  "reverse_mapping =
     [(py ''sort_controller'', py ''S''), (py ''env_controller'', py ''H''),
      (py ''access_controller'', py ''G'')]"
  by (simp add: reverse_mapping_def DEVICE_ID_MAPPING_def py_def)

lemma reverse_mapping_iff:
  "(map_of reverse_mapping dev_id = Some tag) = (map_of DEVICE_ID_MAPPING tag = Some dev_id)"
  by (auto simp: reverse_mapping_eval DEVICE_ID_MAPPING_def py_def split: if_splits)

text \<open>
  C9. When no connection of the table has the device id as its identity,
  \<open>send_message\<close> returns \<open>False\<close> and changes nothing but the log, to which it adds:
  the error that the device has no connection; the list of the connections of the table,
  each with its identity and address (a warning that no client is connected when the
  table is empty); and the raw tag that the static mapping sends to this device id, when
  there is one.
\<close>

theorem send_message_no_connection:
  assumes "\<forall>p \<in> set (clients s). device_id (snd p) \<noteq> Some dev_id"
  shows "send_message e s dev_id command now =
           (s\<lparr>events := events s @
                [Log ERROR (NoConnection dev_id)] @
                [if clients s \<noteq> []
                 then Log INFO (ConnectedClients
                   (map (\<lambda>(cid, info). (cid, device_id info, fst (address info),
                      snd (address info))) (clients s)))
                 else Log WARNING NoClients] @
                (case map_of reverse_mapping dev_id of
                   Some tag \<Rightarrow> [Log INFO (MappedRawId tag)]
                 | None \<Rightarrow> [])\<rparr>,
            False) \<and>
         (map_of reverse_mapping dev_id = Some tag) =
           (map_of DEVICE_ID_MAPPING tag = Some dev_id)"
proof -
  have "find_client_by_device s dev_id = None"
    using assms by (simp add: find_client_by_device_def find_client_None)
  then have "send_message e s dev_id command now =
           (s\<lparr>events := events s @
                [Log ERROR (NoConnection dev_id)] @
                [if clients s \<noteq> []
                 then Log INFO (ConnectedClients
                   (map (\<lambda>(cid, info). (cid, device_id info, fst (address info),
                      snd (address info))) (clients s)))
                 else Log WARNING NoClients] @
                (case map_of reverse_mapping dev_id of
                   Some tag \<Rightarrow> [Log INFO (MappedRawId tag)]
                 | None \<Rightarrow> [])\<rparr>,
            False)"
    by (simp add: send_message_def report_no_connection_def logger_def Let_def
        split: option.splits)
  then show ?thesis
    using reverse_mapping_iff [of dev_id tag] by blast
qed

text \<open>
  A message for \<open>env_controller\<close> while only \<open>sort_controller\<close> is connected: the
  result is \<open>False\<close>, the table is as before, and the log names the connected client
  and the raw tag \<open>H\<close>.
\<close>

theorem send_message_no_connection_witness:
  "find_client_by_device sorter_connected (py ''env_controller'') = None \<and>
   snd (send_message quiet_env sorter_connected (py ''env_controller'') (py ''CMD'') 200) = False \<and>
   clients (fst (send_message quiet_env sorter_connected (py ''env_controller'') (py ''CMD'') 200)) =
     clients sorter_connected \<and>
   new_events sorter_connected
     (fst (send_message quiet_env sorter_connected (py ''env_controller'') (py ''CMD'') 200)) =
     [Log ERROR (NoConnection (py ''env_controller'')),
      Log INFO (ConnectedClients [(py ''192.168.0.21:50123'', Some (py ''sort_controller''),
        py ''192.168.0.21'', 50123)]),
      Log INFO (MappedRawId (py ''H''))]"
proof -
  have h: "\<forall>p \<in> set (clients sorter_connected). device_id (snd p) \<noteq> Some (py ''env_controller'')"
    by (simp add: sorter_connected_eval py_def)
  note inst = send_message_no_connection
    [OF h, of quiet_env "py ''CMD''" 200 "py ''H''", THEN conjunct1]
  have rev: "map_of reverse_mapping (py ''env_controller'') = Some (py ''H'')"
    by (simp add: reverse_mapping_eval py_def)
  have cl: "clients sorter_connected =
      [(py ''192.168.0.21:50123'',
         \<lparr>socket = 5, address = (py ''192.168.0.21'', 50123),
          device_id = Some (py ''sort_controller''), last_activity = 100\<rparr>)]"
    by (simp add: sorter_connected_eval)
  have "snd (send_message quiet_env sorter_connected (py ''env_controller'') (py ''CMD'') 200) = False"
    by (simp add: inst)
  moreover have "clients (fst (send_message quiet_env sorter_connected (py ''env_controller'')
      (py ''CMD'') 200)) = clients sorter_connected"
    by (simp add: inst)
  moreover have "new_events sorter_connected
     (fst (send_message quiet_env sorter_connected (py ''env_controller'') (py ''CMD'') 200)) =
     [Log ERROR (NoConnection (py ''env_controller'')),
      Log INFO (ConnectedClients [(py ''192.168.0.21:50123'', Some (py ''sort_controller''),
        py ''192.168.0.21'', 50123)]),
      Log INFO (MappedRawId (py ''H''))]"
    by (simp add: inst new_events_def rev cl)
  moreover have "find_client_by_device sorter_connected (py ''env_controller'') = None"
    using h by (simp add: find_client_by_device_def find_client_None)
  ultimately show ?thesis
    by blast
qed

section \<open>Eviction\<close>

lemma remove_client_absent:
  "map_of (clients s) client_id = None \<Longrightarrow> remove_client e s client_id = s"
  by (simp add: remove_client_def)

lemma remove_client_removes:
  assumes "map_of (clients s) client_id = Some info"
    and "\<not> close_raises e (events s) (socket info)"
  shows "map_of (clients (remove_client e s client_id)) client_id = None"
    and "map_of (message_buffers (remove_client e s client_id)) client_id = None"
  using assms
  by (auto simp: remove_client_def Let_def logger_def contains_def delete_conv'
      split: option.splits)

lemma remove_client_twice:
  assumes "map_of (clients s) client_id = Some info"
    and "\<not> close_raises e (events s) (socket info)"
  shows "remove_client e (remove_client e s client_id) client_id = remove_client e s client_id"
  using remove_client_removes(1) [OF assms] by (rule remove_client_absent)

text \<open>
  X1. Eviction when \<open>close()\<close> returns: for a connection id that is not in the table
  \<open>_remove_client\<close> changes nothing; for one that is in the table and whose socket
  closes without error, it removes the entry and the buffer, and a second call changes
  nothing more.
\<close>

theorem eviction_when_close_returns:
  "(map_of (clients s) client_id = None \<longrightarrow> remove_client e s client_id = s) \<and>
   (\<forall>info. map_of (clients s) client_id = Some info \<and>
        \<not> close_raises e (events s) (socket info) \<longrightarrow>
      map_of (clients (remove_client e s client_id)) client_id = None \<and>
      map_of (message_buffers (remove_client e s client_id)) client_id = None \<and>
      remove_client e (remove_client e s client_id) client_id = remove_client e s client_id)"
  using remove_client_absent [of s client_id e] remove_client_removes [of s client_id _ e]
    remove_client_twice [of s client_id _ e]
  by blast

theorem eviction_when_close_returns_witness:
  "remove_client quiet_env (init_handler []) (py ''192.168.0.21:50123'') = init_handler [] \<and>
   clients (remove_client quiet_env sorter_connected (py ''192.168.0.21:50123'')) = [] \<and>
   message_buffers (remove_client quiet_env sorter_connected (py ''192.168.0.21:50123'')) = [] \<and>
   remove_client quiet_env
     (remove_client quiet_env sorter_connected (py ''192.168.0.21:50123''))
     (py ''192.168.0.21:50123'') =
   remove_client quiet_env sorter_connected (py ''192.168.0.21:50123'')"
proof -
  have absent: "map_of (clients (init_handler [])) (py ''192.168.0.21:50123'') = None"
    by (simp add: init_handler_def)
  have present: "map_of (clients sorter_connected) (py ''192.168.0.21:50123'') =
      Some \<lparr>socket = 5, address = (py ''192.168.0.21'', 50123),
        device_id = Some (py ''sort_controller''), last_activity = 100\<rparr>"
    by (simp add: sorter_connected_eval)
  have quiet: "\<not> close_raises quiet_env evs sk" for evs sk
    by (simp add: quiet_env_def)
  have a: "remove_client quiet_env (init_handler []) (py ''192.168.0.21:50123'') = init_handler []"
    using eviction_when_close_returns [of "init_handler []" "py ''192.168.0.21:50123''" quiet_env]
      absent by blast
  have b: "remove_client quiet_env
     (remove_client quiet_env sorter_connected (py ''192.168.0.21:50123''))
     (py ''192.168.0.21:50123'') =
   remove_client quiet_env sorter_connected (py ''192.168.0.21:50123'')"
    using eviction_when_close_returns [of sorter_connected "py ''192.168.0.21:50123''" quiet_env]
      present quiet by blast
  have c: "clients (remove_client quiet_env sorter_connected (py ''192.168.0.21:50123'')) = []"
    "message_buffers (remove_client quiet_env sorter_connected (py ''192.168.0.21:50123'')) = []"
    by (simp_all add: remove_client_def sorter_connected_eval quiet_env_def logger_def Let_def
        contains_def)
  from a b c show ?thesis
    by blast
qed

text \<open>
  C4. The socket of the connection raises on \<open>close()\<close>: \<open>_remove_client\<close> logs the
  error and returns with the connection still in the table and its buffer still stored,
  since the \<open>del\<close> statements come after \<open>close()\<close> in the same \<open>try\<close> block.
\<close>

theorem remove_client_close_error_keeps_entry:
  "remove_client close_fails_once sorter_connected (py ''192.168.0.21:50123'') =
     sorter_connected
       \<lparr>events := events sorter_connected @ [SockClose 5, Log ERROR ClientCloseError]\<rparr> \<and>
   map_of (clients (remove_client close_fails_once sorter_connected (py ''192.168.0.21:50123'')))
     (py ''192.168.0.21:50123'') =
     Some \<lparr>socket = 5, address = (py ''192.168.0.21'', 50123),
           device_id = Some (py ''sort_controller''), last_activity = 100\<rparr> \<and>
   map_of (message_buffers
       (remove_client close_fails_once sorter_connected (py ''192.168.0.21:50123'')))
     (py ''192.168.0.21:50123'') = Some []"
proof -
  have r: "remove_client close_fails_once sorter_connected (py ''192.168.0.21:50123'') =
     sorter_connected
       \<lparr>events := events sorter_connected @ [SockClose 5, Log ERROR ClientCloseError]\<rparr>"
    by (simp add: remove_client_def sorter_connected_eval close_fails_once_def logger_def
        Let_def)
  show ?thesis
    by (simp add: r) (simp add: sorter_connected_eval)
qed

text \<open>
  C5. With the same socket, a second call of \<open>_remove_client\<close> is not without effect:
  the first call leaves the connection in the table, the second closes the socket again,
  this time without error, and removes the connection and its buffer.
\<close>

theorem remove_client_twice_differs:
  "clients (remove_client close_fails_once sorter_connected (py ''192.168.0.21:50123'')) =
     clients sorter_connected \<and>
   clients
     (remove_client close_fails_once
        (remove_client close_fails_once sorter_connected (py ''192.168.0.21:50123''))
        (py ''192.168.0.21:50123'')) = [] \<and>
   message_buffers
     (remove_client close_fails_once
        (remove_client close_fails_once sorter_connected (py ''192.168.0.21:50123''))
        (py ''192.168.0.21:50123'')) = [] \<and>
   remove_client close_fails_once
     (remove_client close_fails_once sorter_connected (py ''192.168.0.21:50123''))
     (py ''192.168.0.21:50123'') \<noteq>
   remove_client close_fails_once sorter_connected (py ''192.168.0.21:50123'')"
proof -
  have r1: "remove_client close_fails_once sorter_connected (py ''192.168.0.21:50123'') =
     sorter_connected
       \<lparr>events := events sorter_connected @ [SockClose 5, Log ERROR ClientCloseError]\<rparr>"
    by (simp add: remove_client_def sorter_connected_eval close_fails_once_def logger_def
        Let_def)
  have r2: "remove_client close_fails_once
     (sorter_connected
       \<lparr>events := events sorter_connected @ [SockClose 5, Log ERROR ClientCloseError]\<rparr>)
     (py ''192.168.0.21:50123'') =
     sorter_connected
       \<lparr>clients := [], message_buffers := [],
        events := events sorter_connected @
          [SockClose 5, Log ERROR ClientCloseError, SockClose 5,
           Log INFO (DeviceDisconnected (py ''sort_controller''))]\<rparr>"
    by (simp add: remove_client_def sorter_connected_eval close_fails_once_def logger_def
        Let_def contains_def py_def)
  have ne: "clients sorter_connected \<noteq> []"
    by (simp add: sorter_connected_eval)
  have "sorter_connected
       \<lparr>clients := [], message_buffers := [],
        events := events sorter_connected @
          [SockClose 5, Log ERROR ClientCloseError, SockClose 5,
           Log INFO (DeviceDisconnected (py ''sort_controller''))]\<rparr> \<noteq>
     sorter_connected
       \<lparr>events := events sorter_connected @ [SockClose 5, Log ERROR ClientCloseError]\<rparr>"
  proof
    assume "sorter_connected
       \<lparr>clients := [], message_buffers := [],
        events := events sorter_connected @
          [SockClose 5, Log ERROR ClientCloseError, SockClose 5,
           Log INFO (DeviceDisconnected (py ''sort_controller''))]\<rparr> =
     sorter_connected
       \<lparr>events := events sorter_connected @ [SockClose 5, Log ERROR ClientCloseError]\<rparr>"
    then have "clients (sorter_connected
       \<lparr>clients := [], message_buffers := [],
        events := events sorter_connected @
          [SockClose 5, Log ERROR ClientCloseError, SockClose 5,
           Log INFO (DeviceDisconnected (py ''sort_controller''))]\<rparr>) =
     clients (sorter_connected
       \<lparr>events := events sorter_connected @ [SockClose 5, Log ERROR ClientCloseError]\<rparr>)"
      by (rule arg_cong)
    with ne show False
      by simp
  qed
  then show ?thesis
    by (simp add: r1 r2)
qed

section \<open>The sweep\<close>

lemma bit_length_0 [simp]: "bit_length 0 = 0"
  by (subst bit_length.simps) simp

lemma bit_length_pos: "0 < n \<Longrightarrow> bit_length n = Suc (bit_length (n div 2))"
  by (subst bit_length.simps) simp

lemma bit_length_bounds: "0 < n \<Longrightarrow> 2 ^ (bit_length n - 1) \<le> n \<and> n < 2 ^ bit_length n"
proof (induction n rule: less_induct)
  case (less n)
  show ?case
  proof (cases "n = 1")
    case True
    then show ?thesis
      by (simp add: bit_length_pos)
  next
    case False
    with less.prems have h: "0 < n div 2" "n div 2 < n"
      by auto
    define k where "k = bit_length (n div 2)"
    from less.IH [OF h(2) h(1)] have ih: "2 ^ (k - 1) \<le> n div 2" "n div 2 < 2 ^ k"
      by (simp_all add: k_def)
    have kpos: "0 < k"
      using h(1) by (simp add: k_def bit_length_pos)
    then have pk: "(2::nat) ^ k = 2 * 2 ^ (k - 1)"
      by (cases k) simp_all
    have bl: "bit_length n = Suc k"
      using less.prems by (simp add: k_def bit_length_pos)
    have "2 ^ k \<le> n"
      using ih(1) pk by linarith
    moreover have "n < 2 * 2 ^ k"
      using ih(2) by linarith
    ultimately show ?thesis
      by (simp add: bl)
  qed
qed

text \<open>\<open>ilog2 x\<close> is the exponent of the power of two at or below a positive \<open>x\<close>.\<close>

lemma pow2_Suc: "pow2 (k + 1) = 2 * pow2 k"
proof (cases "0 \<le> k")
  case True
  then show ?thesis
    by (simp add: pow2_def nat_add_distrib)
next
  case False
  then have "nat (- k) = Suc (nat (- (k + 1)))"
    by simp
  then show ?thesis
    using False by (simp add: pow2_def)
qed

lemma ilog2_bounds:
  assumes "0 < x"
  shows "pow2 (ilog2 x) \<le> x \<and> x < pow2 (ilog2 x + 1)"
proof (cases "1 \<le> x")
  case True
  define n where "n = nat \<lfloor>x\<rfloor>"
  have n: "0 < n" "real n \<le> x" "x < real n + 1"
    using True by (simp_all add: n_def)
  from bit_length_bounds [OF n(1)] have b: "2 ^ (bit_length n - 1) \<le> n" "n < 2 ^ bit_length n"
    by simp_all
  have pos: "0 < bit_length n"
    using n(1) by (simp add: bit_length_pos)
  have il: "ilog2 x = int (bit_length n) - 1"
    using True by (simp add: ilog2_def n_def)
  have "pow2 (ilog2 x) = 2 ^ (bit_length n - 1)"
    using pos by (simp add: il pow2_def nat_diff_distrib)
  moreover have "pow2 (ilog2 x + 1) = 2 ^ bit_length n"
    by (simp add: il pow2_def)
  moreover have "(2::real) ^ (bit_length n - 1) \<le> real n"
    using of_nat_mono [OF b(1), where 'a = real] by simp
  moreover have "real n + 1 \<le> (2::real) ^ bit_length n"
  proof -
    have "Suc n \<le> 2 ^ bit_length n"
      using b(2) by simp
    from of_nat_mono [OF this, where 'a = real] show ?thesis
      by simp
  qed
  ultimately show ?thesis
    using n(2,3) by linarith
next
  case False
  define m where "m = nat (\<lceil>1 / x\<rceil> - 1)"
  have y: "1 < 1 / x"
    using False assms by simp
  then have c: "2 \<le> \<lceil>1 / x\<rceil>"
    by linarith
  have m1: "0 < m"
    using c by (simp add: m_def)
  have m2: "real m < 1 / x"
    using c by (simp add: m_def) linarith
  have m3: "1 / x \<le> real m + 1"
    using c by (simp add: m_def) linarith
  note m = m1 m2 m3
  from bit_length_bounds [OF m(1)] have b: "2 ^ (bit_length m - 1) \<le> m" "m < 2 ^ bit_length m"
    by simp_all
  have pos: "0 < bit_length m"
    using m(1) by (simp add: bit_length_pos)
  have il: "ilog2 x = - int (bit_length m)"
    using False by (simp add: ilog2_def m_def)
  have p1: "pow2 (ilog2 x) = 1 / 2 ^ bit_length m"
    using pos by (simp add: il pow2_def)
  have p2: "pow2 (ilog2 x + 1) = 1 / 2 ^ (bit_length m - 1)"
  proof -
    have "nat (int (bit_length m) - 1) = bit_length m - 1"
      by simp
    then show ?thesis
      using pos by (cases "bit_length m = 1") (simp_all add: il pow2_def)
  qed
  have u: "1 / x \<le> 2 ^ bit_length m"
  proof -
    have "Suc m \<le> 2 ^ bit_length m"
      using b(2) by simp
    from of_nat_mono [OF this, where 'a = real] have "real m + 1 \<le> (2::real) ^ bit_length m"
      by simp
    with m(3) show ?thesis by linarith
  qed
  have l: "2 ^ (bit_length m - 1) < 1 / x"
  proof -
    have "(2::real) ^ (bit_length m - 1) \<le> real m"
      using of_nat_mono [OF b(1), where 'a = real] by simp
    with m(2) show ?thesis by linarith
  qed
  have "1 / 2 ^ bit_length m \<le> x"
    using u assms by (simp add: field_simps)
  moreover have "x < 1 / 2 ^ (bit_length m - 1)"
    using l assms by (simp add: field_simps)
  ultimately show ?thesis
    by (simp add: p1 p2)
qed

lemmas double_eval =
  idle_exceeds_def round_double_def ilog2_def bit_length_pos pow2_def round_half_even_def

lemma sweep_removals_simps [simp]:
  "sweep_removals [] = []"
  "sweep_removals (Log lv (InactiveClientRemoved cid) # evs) = cid # sweep_removals evs"
  "sweep_removals (Log lv ClientCloseError # evs) = sweep_removals evs"
  "sweep_removals (Log lv (DeviceDisconnected d) # evs) = sweep_removals evs"
  "sweep_removals (SockClose sk # evs) = sweep_removals evs"
  by (simp_all add: sweep_removals_def)

lemma sweep_removals_append [simp]:
  "sweep_removals (xs @ ys) = sweep_removals xs @ sweep_removals ys"
  by (simp add: sweep_removals_def)

lemma delete_filter: "AList.delete k al = filter (\<lambda>p. fst p \<noteq> k) al"
  by (induction al) auto

text \<open>One eviction of the sweeper: the log line, then \<open>_remove_client\<close>.\<close>

lemma evict_inactive_events:
  assumes "map_of (clients s) k = Some info"
  shows "\<exists>new. events (evict_inactive e s k) = events s @ new \<and>
      sweep_removals new = [k] \<and> closes new = [socket info]"
  using assms
  by (simp add: evict_inactive_def remove_client_def logger_def Let_def split: option.splits)

lemma evict_inactive_other:
  assumes "k' \<noteq> k"
  shows "map_of (clients (evict_inactive e s k)) k' = map_of (clients s) k'"
    and "map_of (message_buffers (evict_inactive e s k)) k' = map_of (message_buffers s) k'"
  using assms
  by (simp_all add: evict_inactive_def remove_client_def logger_def Let_def contains_def
      split: option.splits)

lemma evict_inactive_quiet:
  assumes "map_of (clients s) k = Some info" and "\<forall>evs sk. \<not> close_raises e evs sk"
  shows "clients (evict_inactive e s k) = filter (\<lambda>p. fst p \<noteq> k) (clients s)"
    and "message_buffers (evict_inactive e s k) = filter (\<lambda>p. fst p \<noteq> k) (message_buffers s)"
proof -
  have "AList.delete k (message_buffers s) = message_buffers s"
    if "\<not> contains (message_buffers s) k"
    using that by (simp add: contains_def map_of_eq_None_iff)
  then show "clients (evict_inactive e s k) = filter (\<lambda>p. fst p \<noteq> k) (clients s)"
    and "message_buffers (evict_inactive e s k) = filter (\<lambda>p. fst p \<noteq> k) (message_buffers s)"
    using assms
    by (auto simp: evict_inactive_def remove_client_def logger_def Let_def
        delete_filter [symmetric] split: option.splits)
qed

text \<open>The loop over entries \<open>ps\<close> of the table that are all present, with distinct keys.\<close>

lemma sweep_loop:
  assumes "distinct (map fst ps)"
    and "\<forall>p \<in> set ps. map_of (clients s) (fst p) = Some (snd p)"
  shows "(\<exists>new. events (foldl (evict_inactive e) s (map fst ps)) = events s @ new \<and>
        sweep_removals new = map fst ps \<and> closes new = map (\<lambda>p. socket (snd p)) ps) \<and>
      (\<forall>k. k \<notin> fst ` set ps \<longrightarrow>
        map_of (clients (foldl (evict_inactive e) s (map fst ps))) k = map_of (clients s) k \<and>
        map_of (message_buffers (foldl (evict_inactive e) s (map fst ps))) k =
          map_of (message_buffers s) k) \<and>
      ((\<forall>evs sk. \<not> close_raises e evs sk) \<longrightarrow>
        clients (foldl (evict_inactive e) s (map fst ps)) =
          filter (\<lambda>p. fst p \<notin> fst ` set ps) (clients s) \<and>
        message_buffers (foldl (evict_inactive e) s (map fst ps)) =
          filter (\<lambda>p. fst p \<notin> fst ` set ps) (message_buffers s))"
  using assms
proof (induction ps arbitrary: s)
  case Nil
  show ?case by simp
next
  case (Cons p ps)
  let ?s1 = "evict_inactive e s (fst p)"
  let ?s2 = "foldl (evict_inactive e) ?s1 (map fst ps)"
  have here: "map_of (clients s) (fst p) = Some (snd p)"
    using Cons.prems(2) by simp
  have d: "distinct (map fst ps)"
    using Cons.prems(1) by simp
  have rest: "\<forall>q \<in> set ps. map_of (clients ?s1) (fst q) = Some (snd q)"
  proof
    fix q assume q: "q \<in> set ps"
    then have "fst q \<in> fst ` set ps"
      by (rule imageI)
    moreover have "fst p \<notin> fst ` set ps"
      using Cons.prems(1) by simp
    ultimately have "fst q \<noteq> fst p"
      by metis
    then show "map_of (clients ?s1) (fst q) = Some (snd q)"
      using Cons.prems(2) q by (simp add: evict_inactive_other)
  qed
  note IH = Cons.IH [OF d rest]
  have step: "foldl (evict_inactive e) s (map fst (p # ps)) = ?s2"
    by simp
  have ev: "\<exists>new. events ?s2 = events s @ new \<and>
      sweep_removals new = map fst (p # ps) \<and> closes new = map (\<lambda>p. socket (snd p)) (p # ps)"
  proof -
    obtain n1 where n1: "events ?s1 = events s @ n1" "sweep_removals n1 = [fst p]"
        "closes n1 = [socket (snd p)]"
      using evict_inactive_events [OF here] by blast
    obtain n2 where n2: "events ?s2 = events ?s1 @ n2"
        "sweep_removals n2 = map fst ps" "closes n2 = map (\<lambda>p. socket (snd p)) ps"
      using IH by blast
    from n1 n2 show ?thesis
      by simp
  qed
  have other: "\<forall>k. k \<notin> fst ` set (p # ps) \<longrightarrow>
      map_of (clients ?s2) k = map_of (clients s) k \<and>
      map_of (message_buffers ?s2) k = map_of (message_buffers s) k"
    using IH by (simp add: evict_inactive_other)
  have quiet: "(\<forall>evs sk. \<not> close_raises e evs sk) \<longrightarrow>
      clients ?s2 = filter (\<lambda>q. fst q \<notin> fst ` set (p # ps)) (clients s) \<and>
      message_buffers ?s2 = filter (\<lambda>q. fst q \<notin> fst ` set (p # ps)) (message_buffers s)"
  proof
    assume q: "\<forall>evs sk. \<not> close_raises e evs sk"
    have "clients ?s2 = filter (\<lambda>q. fst q \<notin> fst ` set ps) (clients ?s1)"
      and "message_buffers ?s2 = filter (\<lambda>q. fst q \<notin> fst ` set ps) (message_buffers ?s1)"
      using IH q by simp_all
    then show "clients ?s2 = filter (\<lambda>q. fst q \<notin> fst ` set (p # ps)) (clients s) \<and>
      message_buffers ?s2 = filter (\<lambda>q. fst q \<notin> fst ` set (p # ps)) (message_buffers s)"
      by (simp add: evict_inactive_quiet [OF here q] conj_commute)
  qed
  from ev other quiet show ?case
    unfolding step by blast
qed

text \<open>
  The comparison is on the rounded difference. At time \<open>600 + 1 / 2 ^ 43\<close> a connection
  last active at \<open>1 / 2 ^ 44\<close> has been idle for more than 600 units, but the
  difference, halfway between two doubles, rounds to 600 and the connection is not selected.
\<close>

lemma round_half_even_tie:
  "round_half_even (of_int n + 1 / 2) = (if even n then n else n + 1)"
proof -
  have "\<lfloor>of_int n + 1 / 2 :: real\<rfloor> = n"
    by (simp add: floor_eq_iff)
  then show ?thesis
    by (simp add: round_half_even_def Let_def)
qed

lemma idle_exceeds_rounds_to_even:
  "\<not> idle_exceeds (600 + 1 / 2 ^ 43) (1 / 2 ^ 44) 600"
proof -
  have d: "(600 + 1 / 2 ^ 43) - 1 / 2 ^ 44 = (600 + 1 / 2 ^ 44 :: real)"
    by simp
  have fl: "\<lfloor>600 + 1 / 2 ^ 44 :: real\<rfloor> = 600"
    by (simp add: floor_eq_iff)
  have bl: "bit_length 600 = 10"
    by (simp add: bit_length_pos)
  have il: "ilog2 \<bar>600 + 1 / 2 ^ 44 :: real\<bar> = 9"
    by (simp add: ilog2_def fl bl)
  have q: "(600 + 1 / 2 ^ 44) / pow2 (- 43) = (600 * 2 ^ 43 + 1 / 2 :: real)"
    by (simp add: pow2_def field_simps)
  have r: "round_half_even (of_int (600 * 2 ^ 43) + 1 / 2) = 600 * 2 ^ 43"
    unfolding round_half_even_tie by simp
  have q': "(600 + 1 / 2 ^ 44) / pow2 (- 43) = (of_int (600 * 2 ^ 43) + 1 / 2 :: real)"
    unfolding q by simp
  have k: "max (9 - 52) (- 1074) = (- 43 :: int)"
    by simp
  have nz: "(600 + 1 / 2 ^ 44 :: real) \<noteq> 0"
    by simp
  have "round_double (600 + 1 / 2 ^ 44) = of_int (600 * 2 ^ 43) * pow2 (- 43)"
    unfolding round_double_def Let_def il k q' r using nz by simp
  also have "\<dots> = 600"
    by (simp add: pow2_def)
  finally have "round_double (600 + 1 / 2 ^ 44) = 600" .
  then show ?thesis
    unfolding idle_exceeds_def Let_def d by simp
qed

text \<open>
  X2. A sweep at time \<open>now\<close> with a timeout goes through the table in order and hands to
  \<open>_remove_client\<close> exactly the connections for which the double
  \<open>now - last_activity\<close> is above the timeout: these are the evictions it announces,
  and their sockets are the ones closed. A connection for which it is not above the
  timeout keeps its entry and its buffer. When no \<open>close()\<close> raises, the table left is
  the old one without the selected connections, and likewise the buffers.
\<close>

theorem sweep_evicts_exactly_idle:
  assumes "distinct (map fst (clients s))"
  shows "(let s' = cleanup_inactive_clients e s now timeout;
              idle = (\<lambda>p. idle_exceeds now (last_activity (snd p)) timeout)
          in take (length (events s)) (events s') = events s \<and>
             sweep_removals (new_events s s') = map fst (filter idle (clients s)) \<and>
             closes (new_events s s') = map (\<lambda>p. socket (snd p)) (filter idle (clients s)) \<and>
             (\<forall>p \<in> set (clients s). \<not> idle p \<longrightarrow>
                map_of (clients s') (fst p) = Some (snd p) \<and>
                map_of (message_buffers s') (fst p) = map_of (message_buffers s) (fst p)) \<and>
             ((\<forall>evs sk. \<not> close_raises e evs sk) \<longrightarrow>
                clients s' = filter (\<lambda>p. \<not> idle p) (clients s) \<and>
                message_buffers s' =
                  filter (\<lambda>p. fst p \<notin> set (inactive_clients s now timeout))
                    (message_buffers s)))"
proof -
  define idle where
    "idle = (\<lambda>p :: pystr \<times> client_info. idle_exceeds now (last_activity (snd p)) timeout)"
  define ps where "ps = filter idle (clients s)"
  define s' where "s' = cleanup_inactive_clients e s now timeout"
  have inactive: "inactive_clients s now timeout = map fst ps"
    by (simp add: inactive_clients_def ps_def idle_def case_prod_unfold)
  have s': "s' = foldl (evict_inactive e) s (map fst ps)"
    by (simp add: s'_def cleanup_inactive_clients_def inactive)
  have d: "distinct (map fst ps)"
    using assms by (simp add: ps_def distinct_map_filter)
  have present: "\<forall>p \<in> set ps. map_of (clients s) (fst p) = Some (snd p)"
    using assms by (auto simp: ps_def)
  note loop = sweep_loop [OF d present, of e, folded s']
  have keys: "fst p \<in> fst ` set ps \<longleftrightarrow> idle p" if "p \<in> set (clients s)" for p
  proof
    assume "fst p \<in> fst ` set ps"
    then obtain q where q: "q \<in> set ps" "fst q = fst p"
      by auto
    then have "q \<in> set (clients s)" "idle q"
      by (simp_all add: ps_def)
    with assms that q have "q = p"
      by (metis eq_key_imp_eq_value prod.collapse)
    with \<open>idle q\<close> show "idle p"
      by simp
  next
    assume "idle p"
    with that show "fst p \<in> fst ` set ps"
      by (simp add: ps_def)
  qed
  obtain new where new: "events s' = events s @ new" "sweep_removals new = map fst ps"
      "closes new = map (\<lambda>p. socket (snd p)) ps"
    using loop by blast
  have a: "take (length (events s)) (events s') = events s"
    by (simp add: new)
  have b: "sweep_removals (new_events s s') = map fst ps"
    by (simp add: new new_events_def)
  have c: "closes (new_events s s') = map (\<lambda>p. socket (snd p)) ps"
    by (simp add: new new_events_def)
  have k: "\<forall>p \<in> set (clients s). \<not> idle p \<longrightarrow>
      map_of (clients s') (fst p) = Some (snd p) \<and>
      map_of (message_buffers s') (fst p) = map_of (message_buffers s) (fst p)"
  proof (intro ballI impI)
    fix p assume p: "p \<in> set (clients s)" "\<not> idle p"
    then have "fst p \<notin> fst ` set ps"
      by (simp add: keys)
    moreover have "map_of (clients s) (fst p) = Some (snd p)"
      using assms p(1) by simp
    ultimately show "map_of (clients s') (fst p) = Some (snd p) \<and>
      map_of (message_buffers s') (fst p) = map_of (message_buffers s) (fst p)"
      using loop by simp
  qed
  have q: "(\<forall>evs sk. \<not> close_raises e evs sk) \<longrightarrow>
      clients s' = filter (\<lambda>p. \<not> idle p) (clients s) \<and>
      message_buffers s' =
        filter (\<lambda>p. fst p \<notin> set (inactive_clients s now timeout)) (message_buffers s)"
  proof
    assume quiet: "\<forall>evs sk. \<not> close_raises e evs sk"
    have "clients s' = filter (\<lambda>p. fst p \<notin> fst ` set ps) (clients s)"
      and m: "message_buffers s' = filter (\<lambda>p. fst p \<notin> fst ` set ps) (message_buffers s)"
      using loop quiet by simp_all
    moreover have "filter (\<lambda>p. fst p \<notin> fst ` set ps) (clients s) =
        filter (\<lambda>p. \<not> idle p) (clients s)"
      by (rule filter_cong) (simp_all add: keys)
    ultimately show "clients s' = filter (\<lambda>p. \<not> idle p) (clients s) \<and>
      message_buffers s' =
        filter (\<lambda>p. fst p \<notin> set (inactive_clients s now timeout)) (message_buffers s)"
      by (simp add: inactive)
  qed
  from a b c k q show ?thesis
    unfolding Let_def s'_def [symmetric] idle_def [symmetric] ps_def [symmetric]
    by blast
qed

lemma three_connections_eval:
  "clients three_connections =
     [(py ''10.0.0.1:5001'',
        \<lparr>socket = 5, address = (py ''10.0.0.1'', 5001), device_id = None, last_activity = 399\<rparr>),
      (py ''10.0.0.2:5002'',
        \<lparr>socket = 6, address = (py ''10.0.0.2'', 5002), device_id = None, last_activity = 401\<rparr>),
      (py ''10.0.0.3:5003'',
        \<lparr>socket = 7, address = (py ''10.0.0.3'', 5003), device_id = None, last_activity = 400\<rparr>)]"
  "message_buffers three_connections =
     [(py ''10.0.0.1:5001'', []), (py ''10.0.0.2:5002'', []), (py ''10.0.0.3:5003'', [])]"
  by (simp_all add: three_connections_def accept_connection_def init_handler_def logger_def
      py_def str_of_nat_digit str_of_nat_more Let_def)

text \<open>
  At time 1000 with timeout 600 the connection idle for 601 is evicted; the ones idle
  for 599 and for 600 stay.
\<close>

theorem sweep_evicts_exactly_idle_witness:
  "distinct (map fst (clients three_connections)) \<and>
   sweep_removals (new_events three_connections
     (cleanup_inactive_clients quiet_env three_connections 1000 600)) = [py ''10.0.0.1:5001''] \<and>
   closes (new_events three_connections
     (cleanup_inactive_clients quiet_env three_connections 1000 600)) = [5] \<and>
   clients (cleanup_inactive_clients quiet_env three_connections 1000 600) =
     [(py ''10.0.0.2:5002'',
        \<lparr>socket = 6, address = (py ''10.0.0.2'', 5002), device_id = None, last_activity = 401\<rparr>),
      (py ''10.0.0.3:5003'',
        \<lparr>socket = 7, address = (py ''10.0.0.3'', 5003), device_id = None, last_activity = 400\<rparr>)] \<and>
   message_buffers (cleanup_inactive_clients quiet_env three_connections 1000 600) =
     [(py ''10.0.0.2:5002'', []), (py ''10.0.0.3:5003'', [])]"
proof -
  have h: "distinct (map fst (clients three_connections))"
    by (simp add: three_connections_eval py_def)
  have quiet: "\<forall>evs sk. \<not> close_raises quiet_env evs sk"
    by (simp add: quiet_env_def)
  have inactive: "inactive_clients three_connections 1000 600 = [py ''10.0.0.1:5001'']"
    by (simp add: inactive_clients_def three_connections_eval double_eval)
  note inst = sweep_evicts_exactly_idle [OF h, of quiet_env 1000 600, unfolded Let_def]
  have a: "sweep_removals (new_events three_connections
     (cleanup_inactive_clients quiet_env three_connections 1000 600)) = [py ''10.0.0.1:5001'']"
    using inst [THEN conjunct2, THEN conjunct1]
    by (simp add: three_connections_eval double_eval)
  have b: "closes (new_events three_connections
     (cleanup_inactive_clients quiet_env three_connections 1000 600)) = [5]"
    using inst [THEN conjunct2, THEN conjunct2, THEN conjunct1]
    by (simp add: three_connections_eval double_eval)
  have c: "clients (cleanup_inactive_clients quiet_env three_connections 1000 600) =
     [(py ''10.0.0.2:5002'',
        \<lparr>socket = 6, address = (py ''10.0.0.2'', 5002), device_id = None, last_activity = 401\<rparr>),
      (py ''10.0.0.3:5003'',
        \<lparr>socket = 7, address = (py ''10.0.0.3'', 5003), device_id = None, last_activity = 400\<rparr>)]"
    using inst [THEN conjunct2, THEN conjunct2, THEN conjunct2, THEN conjunct2] quiet
    by (simp add: three_connections_eval double_eval)
  have d: "message_buffers (cleanup_inactive_clients quiet_env three_connections 1000 600) =
     [(py ''10.0.0.2:5002'', []), (py ''10.0.0.3:5003'', [])]"
    using inst [THEN conjunct2, THEN conjunct2, THEN conjunct2, THEN conjunct2] quiet
    by (simp add: inactive) (simp add: three_connections_eval py_def)
  from h a b c d show ?thesis
    by blast
qed

lemma three_connections_state:
  "three_connections =
     \<lparr>clients =
        [(py ''10.0.0.1:5001'',
           \<lparr>socket = 5, address = (py ''10.0.0.1'', 5001), device_id = None,
            last_activity = 399\<rparr>),
         (py ''10.0.0.2:5002'',
           \<lparr>socket = 6, address = (py ''10.0.0.2'', 5002), device_id = None,
            last_activity = 401\<rparr>),
         (py ''10.0.0.3:5003'',
           \<lparr>socket = 7, address = (py ''10.0.0.3'', 5003), device_id = None,
            last_activity = 400\<rparr>)],
      message_buffers =
        [(py ''10.0.0.1:5001'', []), (py ''10.0.0.2:5002'', []), (py ''10.0.0.3:5003'', [])],
      device_handlers = [], auto_device_mapping = [],
      events =
        [Log INFO HandlerInitialized, Log INFO (NewClient (py ''10.0.0.1:5001'')),
         Log INFO (NewClient (py ''10.0.0.2:5002'')),
         Log INFO (NewClient (py ''10.0.0.3:5003''))]\<rparr>"
  by (simp add: three_connections_def accept_connection_def init_handler_def logger_def
      py_def str_of_nat_digit str_of_nat_more Let_def)

text \<open>
  C6. A sweep at time 1000 with timeout 600 over three connections idle for 601, 599 and
  600, the socket of the first raising on \<open>close()\<close>: the sweep selects the connection
  idle for 601 and no other, announces its eviction and calls \<open>_remove_client\<close>, yet
  the connection is in the table afterwards with its buffer, since \<open>_remove_client\<close>
  deletes nothing once \<open>close()\<close> has raised.
\<close>

theorem sweep_close_error_keeps_idle_connection:
  "inactive_clients three_connections 1000 600 = [py ''10.0.0.1:5001''] \<and>
   cleanup_inactive_clients close_fails_once three_connections 1000 600 =
     three_connections
       \<lparr>events := events three_connections @
          [Log INFO (InactiveClientRemoved (py ''10.0.0.1:5001'')), SockClose 5,
           Log ERROR ClientCloseError]\<rparr> \<and>
   map_of (clients (cleanup_inactive_clients close_fails_once three_connections 1000 600))
     (py ''10.0.0.1:5001'') =
     Some \<lparr>socket = 5, address = (py ''10.0.0.1'', 5001), device_id = None,
           last_activity = 399\<rparr> \<and>
   map_of (message_buffers (cleanup_inactive_clients close_fails_once three_connections 1000 600))
     (py ''10.0.0.1:5001'') = Some []"
proof -
  have sel: "inactive_clients three_connections 1000 600 = [py ''10.0.0.1:5001'']"
    by (simp add: inactive_clients_def three_connections_eval double_eval)
  have r: "cleanup_inactive_clients close_fails_once three_connections 1000 600 =
     three_connections
       \<lparr>events := events three_connections @
          [Log INFO (InactiveClientRemoved (py ''10.0.0.1:5001'')), SockClose 5,
           Log ERROR ClientCloseError]\<rparr>"
    apply (simp add: cleanup_inactive_clients_def sel evict_inactive_def)
    apply (simp add: three_connections_state)
    apply (simp add: remove_client_def logger_def close_fails_once_def Let_def)
    done
  show ?thesis
    by (simp add: sel r) (simp add: three_connections_state)
qed

end
